theory Spec2Isabelle
  imports Complex_Main "HOL-Library.Char_ord" "HOL-Library.List_Lexorder"
begin

section \<open>Python values\<close>

text \<open>
  The adapters of \<^verbatim>\<open>news_fetcher.py\<close> move untyped dictionaries around. A value is
  one of the JSON-like Python values below; a dictionary is an association list in
  insertion order, looked up with \<open>map_of\<close>. Floating-point values do not occur in the
  records; the one \<^verbatim>\<open>float\<close> of the program, the pause, has a type of its own.
\<close>

datatype pyval =
    PNone
  | PBool bool
  | PInt int
  | PStr string
  | PList "pyval list"
  | PDict "(string \<times> pyval) list"

type_synonym dict = "(string \<times> pyval) list"

text \<open>Python's truth value testing, as used by \<^verbatim>\<open>or\<close> and \<^verbatim>\<open>not\<close>.\<close>

fun truthy :: "pyval \<Rightarrow> bool" where
  "truthy PNone = False"
| "truthy (PBool b) = b"
| "truthy (PInt i) = (i \<noteq> 0)"
| "truthy (PStr s) = (s \<noteq> [])"
| "truthy (PList xs) = (xs \<noteq> [])"
| "truthy (PDict d) = (d \<noteq> [])"

text \<open>\<^verbatim>\<open>x or y\<close> on two values that are already computed.\<close>

definition py_or :: "pyval \<Rightarrow> pyval \<Rightarrow> pyval" where
  "py_or x y = (if truthy x then x else y)"

text \<open>
  A \<^verbatim>\<open>float\<close>: a finite number, an infinity or not-a-number. It is falsy exactly when
  it is zero.
\<close>

datatype pyfloat = Finite real | PosInf | NegInf | NaN

fun float_truthy :: "pyfloat \<Rightarrow> bool" where
  "float_truthy (Finite r) = (r \<noteq> 0)"
| "float_truthy PosInf = True"
| "float_truthy NegInf = True"
| "float_truthy NaN = True"

text \<open>The exceptions (subclasses of \<^verbatim>\<open>Exception\<close>) that the code can meet.\<close>

datatype error =
    ValueError string
  | KeyError string
  | AttributeError string
  | TypeError string
  | OverflowError string
  | HTTPError nat
  | OtherError string

text \<open>\<^verbatim>\<open>d.get(k)\<close>, \<^verbatim>\<open>d.get(k, default)\<close> and \<^verbatim>\<open>d[k]\<close> on a dictionary.\<close>

definition dict_get :: "dict \<Rightarrow> string \<Rightarrow> pyval" where
  "dict_get d k = (case map_of d k of None \<Rightarrow> PNone | Some v \<Rightarrow> v)"

definition dict_get_default :: "dict \<Rightarrow> string \<Rightarrow> pyval \<Rightarrow> pyval" where
  "dict_get_default d k dflt = (case map_of d k of None \<Rightarrow> dflt | Some v \<Rightarrow> v)"

definition dict_item :: "dict \<Rightarrow> string \<Rightarrow> error + pyval" where
  "dict_item d k = (case map_of d k of None \<Rightarrow> Inl (KeyError k) | Some v \<Rightarrow> Inr v)"

text \<open>\<^verbatim>\<open>v[k]\<close> with a string key on a decoded JSON value: only a dictionary has one.\<close>

fun subscript :: "pyval \<Rightarrow> string \<Rightarrow> error + pyval" where
  "subscript (PDict d) k = dict_item d k"
| "subscript v k = Inl (TypeError ''subscript'')"

text \<open>\<^verbatim>\<open>v.get(k, default)\<close> on a value: everything but a dictionary has no \<^verbatim>\<open>get\<close>.\<close>

fun value_get_default :: "pyval \<Rightarrow> string \<Rightarrow> pyval \<Rightarrow> error + pyval" where
  "value_get_default (PDict d) k dflt = Inr (dict_get_default d k dflt)"
| "value_get_default v k dflt = Inl (AttributeError ''get'')"

text \<open>
  Attribute access \<^verbatim>\<open>e.name\<close> on a feed entry, whose attributes are its keys:
  a missing one raises \<^verbatim>\<open>AttributeError\<close>.
\<close>

definition attr :: "dict \<Rightarrow> string \<Rightarrow> error + pyval" where
  "attr e k = (case map_of e k of None \<Rightarrow> Inl (AttributeError k) | Some v \<Rightarrow> Inr v)"

text \<open>What a \<^verbatim>\<open>for\<close> iterates over: the items of a list, the characters of a string,
  the keys of a dictionary; the other values are not iterable.\<close>

fun py_iter :: "pyval \<Rightarrow> error + pyval list" where
  "py_iter (PList xs) = Inr xs"
| "py_iter (PStr s) = Inr (map (\<lambda>c. PStr [c]) s)"
| "py_iter (PDict d) = Inr (map (\<lambda>kv. PStr (fst kv)) d)"
| "py_iter v = Inl (TypeError ''not iterable'')"

text \<open>The slice \<^verbatim>\<open>xs[:m]\<close>: a negative bound counts from the end.\<close>

definition slice_to :: "'a list \<Rightarrow> int \<Rightarrow> 'a list" where
  "slice_to xs m = (if m < 0 then take (nat (int (length xs) + m)) xs else take (nat m) xs)"

section \<open>The world outside the program\<close>

text \<open>
  The libraries and services the adapters call are parameters of the model: the process
  environment, the HTTP client, the URL encoder, the feed parser, the aggregation library
  (the constructor of its client, \<^verbatim>\<open>GNews(language, country, period, max_results)\<close>,
  which may refuse a configuration, and the \<^verbatim>\<open>get_news\<close> of a client so configured),
  the clock (its \<open>n\<close>-th reading, already formatted by \<^verbatim>\<open>isoformat()\<close>) and the range
  of durations of the platform's \<^verbatim>\<open>time.sleep\<close> (the error it raises for a finite
  duration that is out of range, if any).
\<close>

record response =
  status_code :: nat
  body_json :: "error + pyval"

record env =
  getenv :: "string \<Rightarrow> string option"
  requests_get :: "string \<Rightarrow> dict \<Rightarrow> error + response"
  urlencode :: "(string \<times> string) list \<Rightarrow> string"
  feedparser_parse :: "string \<Rightarrow> error + dict list"
  gnews_init :: "string \<Rightarrow> string \<Rightarrow> string \<Rightarrow> int \<Rightarrow> error + unit"
  gnews_get_news :: "string \<Rightarrow> string \<Rightarrow> string \<Rightarrow> int \<Rightarrow> string \<Rightarrow> error + dict list option"
  clock :: "nat \<Rightarrow> string"
  sleep_out_of_range :: "real \<Rightarrow> error option"

text \<open>
  What a call leaves behind: how often the clock was read, the network operations in
  order, the warnings logged and the pauses taken.
\<close>

datatype net_op =
    HttpGet string dict
  | FeedParse string
  | GNewsGetNews string string string int string

record world =
  now_calls :: nat
  net_log :: "net_op list"
  warnings :: "error list"
  sleeps :: "pyfloat list"

type_synonym 'a action = "world \<Rightarrow> (error + 'a) \<times> world"

definition pureS :: "'a \<Rightarrow> 'a action" where
  "pureS x w = (Inr x, w)"

definition liftE :: "error + 'a \<Rightarrow> 'a action" where
  "liftE r w = (r, w)"

text \<open>Sequencing: an exception ends the computation with the world as it is then.\<close>

definition bindS :: "'a action \<Rightarrow> ('a \<Rightarrow> 'b action) \<Rightarrow> 'b action" where
  "bindS m f w = (case m w of (Inl e, w1) \<Rightarrow> (Inl e, w1) | (Inr x, w1) \<Rightarrow> f x w1)"

definition bindE :: "error + 'a \<Rightarrow> ('a \<Rightarrow> error + 'b) \<Rightarrow> error + 'b" where
  "bindE r f = (case r of Inl e \<Rightarrow> Inl e | Inr x \<Rightarrow> f x)"

text \<open>A list comprehension (or a loop that appends) whose body has effects and may raise.\<close>

fun comprehension :: "('a \<Rightarrow> 'b action) \<Rightarrow> 'a list \<Rightarrow> 'b list action" where
  "comprehension f [] w = (Inr [], w)"
| "comprehension f (x # xs) w =
     (case f x w of
        (Inl e, w1) \<Rightarrow> (Inl e, w1)
      | (Inr y, w1) \<Rightarrow>
          (case comprehension f xs w1 of
             (Inl e, w2) \<Rightarrow> (Inl e, w2)
           | (Inr ys, w2) \<Rightarrow> (Inr (y # ys), w2)))"

text \<open>\<^verbatim>\<open>datetime.now(timezone.utc).isoformat()\<close>: one more reading of the clock.\<close>

definition utc_now_isoformat :: "env \<Rightarrow> pyval action" where
  "utc_now_isoformat E w = (Inr (PStr (clock E (now_calls w))), w\<lparr>now_calls := Suc (now_calls w)\<rparr>)"

definition http_get :: "env \<Rightarrow> string \<Rightarrow> dict \<Rightarrow> response action" where
  "http_get E url params w = (requests_get E url params, w\<lparr>net_log := net_log w @ [HttpGet url params]\<rparr>)"

definition raise_for_status :: "response \<Rightarrow> error + unit" where
  "raise_for_status resp =
     (if 400 \<le> status_code resp \<and> status_code resp < 600 then Inl (HTTPError (status_code resp))
      else Inr ())"

definition feed_parse :: "env \<Rightarrow> string \<Rightarrow> dict list action" where
  "feed_parse E url w = (feedparser_parse E url, w\<lparr>net_log := net_log w @ [FeedParse url]\<rparr>)"

text \<open>
  \<^verbatim>\<open>time.sleep\<close> checks its argument before it pauses: not-a-number is refused with
  \<^verbatim>\<open>ValueError\<close>, an infinite duration or a finite one out of the platform's range with
  the platform's error (\<^verbatim>\<open>OverflowError\<close>), and a negative one in range with
  \<^verbatim>\<open>ValueError\<close>.
\<close>

fun sleep_check :: "env \<Rightarrow> pyfloat \<Rightarrow> error + unit" where
  "sleep_check E NaN = Inl (ValueError ''Invalid value NaN (not a number)'')"
| "sleep_check E PosInf = Inl (OverflowError ''timestamp out of range for platform time_t'')"
| "sleep_check E NegInf = Inl (OverflowError ''timestamp out of range for platform time_t'')"
| "sleep_check E (Finite r) =
     (case sleep_out_of_range E r of
        Some e \<Rightarrow> Inl e
      | None \<Rightarrow> (if r < 0 then Inl (ValueError ''sleep length must be non-negative'') else Inr ()))"

definition time_sleep :: "env \<Rightarrow> pyfloat \<Rightarrow> unit action" where
  "time_sleep E s w =
     (case sleep_check E s of
        Inl e \<Rightarrow> (Inl e, w)
      | Inr u \<Rightarrow> (Inr (), w\<lparr>sleeps := sleeps w @ [s]\<rparr>))"

section \<open>Option A: the keyed backend\<close>

definition newsapi_url :: string where
  "newsapi_url = ''https://newsapi.org/v2/everything''"

definition missing_key_message :: string where
  "missing_key_message = ''Set NEWSAPI_KEY env var or pass --newsapi-key''"

text \<open>\<^verbatim>\<open>api_key or os.getenv("NEWSAPI_KEY")\<close> on optional strings.\<close>

definition resolve_api_key :: "env \<Rightarrow> string option \<Rightarrow> string option" where
  "resolve_api_key E api_key =
     (case api_key of
        None \<Rightarrow> getenv E ''NEWSAPI_KEY''
      | Some k \<Rightarrow> (if k \<noteq> [] then Some k else getenv E ''NEWSAPI_KEY''))"

text \<open>One element of the comprehension of lines 46 to 57.\<close>

definition newsapi_article :: "env \<Rightarrow> pyval \<Rightarrow> dict action" where
  "newsapi_article E a =
     bindS (liftE (bindE (subscript a ''source'') (\<lambda>s. subscript s ''name''))) (\<lambda>src.
     bindS (liftE (subscript a ''title'')) (\<lambda>title.
     bindS (liftE (subscript a ''description'')) (\<lambda>description.
     bindS (liftE (subscript a ''url'')) (\<lambda>url.
     bindS (liftE (subscript a ''urlToImage'')) (\<lambda>image.
     bindS (liftE (subscript a ''publishedAt'')) (\<lambda>published_at.
     bindS (utc_now_isoformat E) (\<lambda>fetched_at.
     pureS [(''source'', src), (''title'', title), (''description'', description),
            (''url'', url), (''image'', image), (''published_at'', published_at),
            (''fetched_at'', fetched_at)])))))))"

text \<open>Lines 33 to 57: the request, once a key is there.\<close>

definition newsapi_request :: "env \<Rightarrow> string \<Rightarrow> string \<Rightarrow> string \<Rightarrow> int \<Rightarrow> dict list action" where
  "newsapi_request E key query language page_size =
     bindS (http_get E newsapi_url
              [(''q'', PStr query), (''language'', PStr language), (''sortBy'', PStr ''publishedAt''),
               (''pageSize'', PInt page_size), (''apiKey'', PStr key)]) (\<lambda>resp.
     bindS (liftE (raise_for_status resp)) (\<lambda>u.
     bindS (liftE (body_json resp)) (\<lambda>j.
     bindS (liftE (value_get_default j ''articles'' (PList []))) (\<lambda>articles.
     bindS (liftE (py_iter articles)) (\<lambda>items.
     comprehension (newsapi_article E) items)))))"

definition fetch_news_newsapi ::
  "env \<Rightarrow> string option \<Rightarrow> string \<Rightarrow> string \<Rightarrow> int \<Rightarrow> dict list action" where
  "fetch_news_newsapi E api_key query language page_size =
     (case resolve_api_key E api_key of
        None \<Rightarrow> liftE (Inl (ValueError missing_key_message))
      | Some k \<Rightarrow>
          (if k = [] then liftE (Inl (ValueError missing_key_message))
           else newsapi_request E k query language page_size))"

section \<open>Option B: the keyless backend and its feed fallback\<close>

definition rss_url :: "env \<Rightarrow> string \<Rightarrow> string \<Rightarrow> string \<Rightarrow> string" where
  "rss_url E query language country =
     ''https://news.google.com/rss/search?'' @
     urlencode E [(''q'', query), (''hl'', language @ ''-'' @ country), (''gl'', country),
                  (''ceid'', country @ '':'' @ language)]"

text \<open>\<^verbatim>\<open>e.get("source", {}).get("title", "")\<close> on a feed entry.\<close>

definition entry_source :: "dict \<Rightarrow> error + pyval" where
  "entry_source e = value_get_default (dict_get_default e ''source'' (PDict [])) ''title'' (PStr [])"

text \<open>One element of the comprehension of lines 82 to 93.\<close>

definition rss_entry :: "env \<Rightarrow> dict \<Rightarrow> dict action" where
  "rss_entry E e =
     bindS (liftE (entry_source e)) (\<lambda>src.
     bindS (liftE (attr e ''title'')) (\<lambda>title.
     bindS (liftE (attr e ''link'')) (\<lambda>url.
     bindS (utc_now_isoformat E) (\<lambda>fetched_at.
     pureS [(''source'', src), (''title'', title),
            (''description'', dict_get_default e ''summary'' (PStr [])),
            (''url'', url), (''image'', PNone),
            (''published_at'', dict_get_default e ''published'' PNone),
            (''fetched_at'', fetched_at)]))))"

text \<open>\<^verbatim>\<open>_fallback_to_rss\<close> (a name cannot start with an underscore here).\<close>

definition fallback_to_rss :: "env \<Rightarrow> string \<Rightarrow> string \<Rightarrow> string \<Rightarrow> int \<Rightarrow> dict list action" where
  "fallback_to_rss E query language country max_results =
     bindS (feed_parse E (rss_url E query language country)) (\<lambda>entries.
     comprehension (rss_entry E) (slice_to entries max_results))"

text \<open>Lines 109 to 114: the client of the aggregation library is constructed first, on
  every call and outside the \<^verbatim>\<open>try\<close>: an exception of the constructor propagates.\<close>

definition gnews_client :: "env \<Rightarrow> string \<Rightarrow> string \<Rightarrow> string \<Rightarrow> int \<Rightarrow> unit action" where
  "gnews_client E language country period max_results =
     liftE (gnews_init E language country period max_results)"

text \<open>Lines 116 to 121: the guarded library call; \<^verbatim>\<open>raw\<close> stays empty when it raises.\<close>

definition gnews_try :: "env \<Rightarrow> string \<Rightarrow> string \<Rightarrow> string \<Rightarrow> int \<Rightarrow> string \<Rightarrow> dict list action" where
  "gnews_try E language country period max_results query w =
     (let w1 = w\<lparr>net_log := net_log w @ [GNewsGetNews language country period max_results query]\<rparr>
      in case gnews_get_news E language country period max_results query of
           Inl exc \<Rightarrow> (Inr [], w1\<lparr>warnings := warnings w1 @ [exc]\<rparr>)
         | Inr None \<Rightarrow> (Inr [], w1)
         | Inr (Some r) \<Rightarrow> (Inr r, w1))"

text \<open>\<^verbatim>\<open>a.get("fetched_at") or datetime.now(timezone.utc).isoformat()\<close>: the clock is
  read only when the left operand is falsy.\<close>

definition fetched_at_or_now :: "env \<Rightarrow> dict \<Rightarrow> pyval action" where
  "fetched_at_or_now E a =
     (if truthy (dict_get a ''fetched_at'') then pureS (dict_get a ''fetched_at'')
      else utc_now_isoformat E)"

text \<open>The body of the loop of lines 129 to 142.\<close>

definition normalise_record :: "env \<Rightarrow> dict \<Rightarrow> dict action" where
  "normalise_record E a =
     bindS (liftE (dict_item a ''title'')) (\<lambda>title.
     bindS (liftE (dict_item a ''url'')) (\<lambda>url.
     bindS (fetched_at_or_now E a) (\<lambda>fetched_at.
     pureS [(''source'', py_or (dict_get a ''source'') (dict_get a ''publisher'')),
            (''title'', title),
            (''description'', dict_get_default a ''description'' (PStr [])),
            (''url'', url),
            (''image'', dict_get a ''image''),
            (''published_at'',
               py_or (py_or (dict_get a ''published_at'') (dict_get a ''published date''))
                     (dict_get a ''published'')),
            (''fetched_at'', fetched_at)])))"

definition normalise :: "env \<Rightarrow> dict list \<Rightarrow> dict list action" where
  "normalise E raw = comprehension (normalise_record E) raw"

text \<open>Lines 144 and 145: \<^verbatim>\<open>if sleep_sec: time.sleep(sleep_sec)\<close>.\<close>

definition pause :: "env \<Rightarrow> pyfloat \<Rightarrow> unit action" where
  "pause E sleep_sec = (if float_truthy sleep_sec then time_sleep E sleep_sec else pureS ())"

definition fetch_news_gnews ::
  "env \<Rightarrow> string \<Rightarrow> string \<Rightarrow> string \<Rightarrow> string \<Rightarrow> int \<Rightarrow> bool \<Rightarrow> pyfloat \<Rightarrow> dict list action" where
  "fetch_news_gnews E query language country period max_results force_fallback sleep_sec =
     bindS (gnews_client E language country period max_results) (\<lambda>gn.
     bindS (if \<not> force_fallback then gnews_try E language country period max_results query
            else pureS []) (\<lambda>raw0.
     bindS (if force_fallback \<or> raw0 = [] then fallback_to_rss E query language country max_results
            else pureS raw0) (\<lambda>raw.
     bindS (normalise E raw) (\<lambda>normalised.
     bindS (pause E sleep_sec) (\<lambda>u.
     pureS normalised)))))"

section \<open>Auxiliary notions and sample inputs\<close>

text \<open>An action whose result and clock use depend on the world only through the number of
  clock readings taken so far.\<close>

definition clock_only :: "'a action \<Rightarrow> bool" where
  "clock_only act = (\<forall>w w'. now_calls w = now_calls w' \<longrightarrow>
      fst (act w) = fst (act w') \<and> now_calls (snd (act w)) = now_calls (snd (act w')))"

text \<open>The field of a record of the output, as \<^verbatim>\<open>r.get(k)\<close> reads it.\<close>

definition field :: "string \<Rightarrow> dict \<Rightarrow> pyval" where
  "field k r = dict_get r k"

definition world0 :: world where
  "world0 = \<lparr>now_calls = 0, net_log = [], warnings = [], sleeps = []\<rparr>"

definition sample_clock :: "nat \<Rightarrow> string" where
  "sample_clock n =
     (if n = 0 then ''2024-05-01T12:00:00+00:00''
      else if n = 1 then ''2024-05-01T12:00:01+00:00''
      else ''2024-05-01T12:00:02+00:00'')"

definition sample_urlencode :: "(string \<times> string) list \<Rightarrow> string" where
  "sample_urlencode ps = concat (map (\<lambda>kv. fst kv @ ''='' @ snd kv @ ''&'') ps)"

text \<open>A client constructor that refuses a maximum that is not positive, and a platform
  whose \<^verbatim>\<open>time.sleep\<close> takes the durations that fit 63 bits of nanoseconds.\<close>

definition sample_gnews_init :: "string \<Rightarrow> string \<Rightarrow> string \<Rightarrow> int \<Rightarrow> error + unit" where
  "sample_gnews_init language country period max_results =
     (if max_results \<le> 0 then Inl (OtherError ''InvalidConfigError'') else Inr ())"

definition sample_sleep_range :: "real \<Rightarrow> error option" where
  "sample_sleep_range r =
     (if 9223372036 \<le> \<bar>r\<bar> then Some (OverflowError ''timestamp out of range for platform time_t'')
      else None)"

definition entry_with_source :: dict where
  "entry_with_source =
     [(''title'', PStr ''Alpha''), (''link'', PStr ''http://a.example/1''),
      (''summary'', PStr ''first''), (''published'', PStr ''Wed, 01 May 2024 10:00:00 GMT''),
      (''source'', PDict [(''href'', PStr ''http://a.example''), (''title'', PStr ''Wire'')])]"

definition entry_without_source :: dict where
  "entry_without_source = [(''title'', PStr ''Beta''), (''link'', PStr ''http://b.example/2'')]"

definition library_record :: dict where
  "library_record =
     [(''title'', PStr ''Gamma''), (''description'', PStr ''third''),
      (''published date'', PStr ''Wed, 01 May 2024 09:00:00 GMT''),
      (''url'', PStr ''http://c.example/3''),
      (''publisher'', PDict [(''href'', PStr ''http://c.example''), (''title'', PStr ''Daily'')])]"

text \<open>A world in which the aggregation library raises and the feed has two entries.\<close>

definition raising_env :: env where
  "raising_env =
     \<lparr>getenv = (\<lambda>k. None),
      requests_get = (\<lambda>url params. Inl (OtherError ''offline'')),
      urlencode = sample_urlencode,
      feedparser_parse = (\<lambda>url. Inr [entry_with_source, entry_without_source]),
      gnews_init = sample_gnews_init,
      gnews_get_news = (\<lambda>language country period max_results query. Inl (OtherError ''boom'')),
      clock = sample_clock,
      sleep_out_of_range = sample_sleep_range\<rparr>"

text \<open>A world in which the aggregation library answers with one record.\<close>

definition library_env :: env where
  "library_env =
     \<lparr>getenv = (\<lambda>k. None),
      requests_get = (\<lambda>url params. Inl (OtherError ''offline'')),
      urlencode = sample_urlencode,
      feedparser_parse = (\<lambda>url. Inr [entry_with_source, entry_without_source]),
      gnews_init = sample_gnews_init,
      gnews_get_news = (\<lambda>language country period max_results query. Inr (Some [library_record])),
      clock = sample_clock,
      sleep_out_of_range = sample_sleep_range\<rparr>"

text \<open>The records of a raw list that carry no truthy \<^verbatim>\<open>fetched_at\<close>.\<close>

definition unstamped :: "dict list \<Rightarrow> nat" where
  "unstamped raw = length (filter (\<lambda>a. \<not> truthy (dict_get a ''fetched_at'')) raw)"

definition stamped_record :: dict where
  "stamped_record =
     [(''title'', PStr ''Delta''), (''url'', PStr ''http://d.example/4''),
      (''published_at'', PStr ''A''), (''published date'', PStr ''B''),
      (''fetched_at'', PStr ''T0'')]"

definition blank_published_record :: dict where
  "blank_published_record =
     [(''title'', PStr ''Epsilon''), (''url'', PStr ''http://e.example/5''),
      (''published_at'', PStr []), (''published date'', PStr ''B'')]"

definition blank_fetched_record :: dict where
  "blank_fetched_record =
     [(''title'', PStr ''Zeta''), (''url'', PStr ''http://f.example/6''),
      (''fetched_at'', PStr [])]"

text \<open>An article as the keyed backend delivers it, and a world in which the key is in the
  environment and the backend answers with that article.\<close>

definition sample_article :: pyval where
  "sample_article =
     PDict [(''source'', PDict [(''id'', PNone), (''name'', PStr ''Herald'')]),
            (''title'', PStr ''Eta''), (''description'', PNone),
            (''url'', PStr ''http://g.example/7''), (''urlToImage'', PNone),
            (''publishedAt'', PStr ''2024-05-01T08:00:00Z'')]"

definition keyed_env :: env where
  "keyed_env =
     \<lparr>getenv = (\<lambda>k. if k = ''NEWSAPI_KEY'' then Some ''from-env'' else None),
      requests_get = (\<lambda>url params.
         Inr \<lparr>status_code = 200,
              body_json = Inr (PDict [(''status'', PStr ''ok''),
                                      (''articles'', PList [sample_article])])\<rparr>),
      urlencode = sample_urlencode,
      feedparser_parse = (\<lambda>url. Inr []),
      gnews_init = sample_gnews_init,
      gnews_get_news = (\<lambda>language country period max_results query. Inr None),
      clock = sample_clock,
      sleep_out_of_range = sample_sleep_range\<rparr>"

text \<open>The keys of a canonical article, in the order in which every adapter writes them.\<close>

definition canonical_keys :: "string list" where
  "canonical_keys =
     [''source'', ''title'', ''description'', ''url'', ''image'', ''published_at'', ''fetched_at'']"






text \<open>
  The order of two \<^verbatim>\<open>fetched_at\<close> values: that of Python on two strings, character by
  character; a value that is not a string does not compare. A list is non-decreasing when
  every element is at most every later one.
\<close>

fun py_le :: "pyval \<Rightarrow> pyval \<Rightarrow> bool" where
  "py_le (PStr a) (PStr b) = (a \<le> b)"
| "py_le x y = False"

definition non_decreasing :: "pyval list \<Rightarrow> bool" where
  "non_decreasing vs = sorted_wrt py_le vs"

text \<open>A world in which the aggregation library answers with three records, the last of
  which carries a \<^verbatim>\<open>fetched_at\<close> of its own, from the day before.\<close>

definition second_library_record :: dict where
  "second_library_record =
     [(''title'', PStr ''Iota''), (''description'', PStr ''fourth''),
      (''published date'', PStr ''Wed, 01 May 2024 09:30:00 GMT''),
      (''url'', PStr ''http://k.example/11''),
      (''publisher'', PDict [(''href'', PStr ''http://k.example''), (''title'', PStr ''Post'')])]"

definition backdated_record :: dict where
  "backdated_record =
     [(''title'', PStr ''Kappa''), (''url'', PStr ''http://l.example/12''),
      (''fetched_at'', PStr ''2024-04-30T00:00:00+00:00'')]"

definition stale_env :: env where
  "stale_env =
     \<lparr>getenv = (\<lambda>k. None),
      requests_get = (\<lambda>url params. Inl (OtherError ''offline'')),
      urlencode = sample_urlencode,
      feedparser_parse = (\<lambda>url. Inr [entry_with_source, entry_without_source]),
      gnews_init = sample_gnews_init,
      gnews_get_news = (\<lambda>language country period max_results query.
         Inr (Some [library_record, second_library_record, backdated_record])),
      clock = sample_clock,
      sleep_out_of_range = sample_sleep_range\<rparr>"

text \<open>The same library without the record from the day before.\<close>

definition fresh_env :: env where
  "fresh_env =
     \<lparr>getenv = (\<lambda>k. None),
      requests_get = (\<lambda>url params. Inl (OtherError ''offline'')),
      urlencode = sample_urlencode,
      feedparser_parse = (\<lambda>url. Inr [entry_with_source, entry_without_source]),
      gnews_init = sample_gnews_init,
      gnews_get_news = (\<lambda>language country period max_results query.
         Inr (Some [library_record, second_library_record])),
      clock = sample_clock,
      sleep_out_of_range = sample_sleep_range\<rparr>"

section \<open>Sequencing lemmas\<close>

lemma clock_only_pureS: "clock_only (pureS x)"
  by (simp add: clock_only_def pureS_def)

lemma clock_only_liftE: "clock_only (liftE r)"
  by (simp add: clock_only_def liftE_def)

lemma clock_onlyD:
  assumes "clock_only act" and "now_calls w = now_calls w'"
  shows "fst (act w) = fst (act w')" and "now_calls (snd (act w)) = now_calls (snd (act w'))"
  using assms unfolding clock_only_def by blast+

lemma clock_onlyI:
  assumes "\<And>w w'. now_calls w = now_calls w' \<Longrightarrow>
     fst (act w) = fst (act w') \<and> now_calls (snd (act w)) = now_calls (snd (act w'))"
  shows "clock_only act"
  using assms unfolding clock_only_def by blast

lemma clock_only_bindS:
  assumes cm: "clock_only m" and cf: "\<And>x. clock_only (f x)"
  shows "clock_only (bindS m f)"
proof (rule clock_onlyI)
  fix w w' :: world
  assume eq: "now_calls w = now_calls w'"
  obtain r w1 where P: "m w = (r, w1)" by (cases "m w")
  obtain r' w1' where P': "m w' = (r', w1')" by (cases "m w'")
  have "fst (m w) = fst (m w')" by (rule clock_onlyD(1)[OF cm eq])
  then have rr: "r' = r" by (simp add: P P')
  have "now_calls (snd (m w)) = now_calls (snd (m w'))" by (rule clock_onlyD(2)[OF cm eq])
  then have ww: "now_calls w1 = now_calls w1'" by (simp add: P P')
  show "fst (bindS m f w) = fst (bindS m f w') \<and>
        now_calls (snd (bindS m f w)) = now_calls (snd (bindS m f w'))"
  proof (cases r)
    case (Inl e)
    have "bindS m f w = (Inl e, w1)" "bindS m f w' = (Inl e, w1')"
      using P P' rr Inl by (simp_all add: bindS_def)
    then show ?thesis using ww by simp
  next
    case (Inr x)
    have "bindS m f w = f x w1" "bindS m f w' = f x w1'"
      using P P' rr Inr by (simp_all add: bindS_def)
    then show ?thesis using clock_onlyD[OF cf ww, of x] by simp
  qed
qed

lemma clock_only_now: "clock_only (utc_now_isoformat E)"
  by (simp add: clock_only_def utc_now_isoformat_def)

lemma clock_only_feed_parse: "clock_only (feed_parse E url)"
  by (simp add: clock_only_def feed_parse_def)

lemma comprehension_Cons:
  "comprehension f (x # xs) = bindS (f x) (\<lambda>y. bindS (comprehension f xs) (\<lambda>ys. pureS (y # ys)))"
proof (rule ext)
  fix w
  show "comprehension f (x # xs) w = bindS (f x) (\<lambda>y. bindS (comprehension f xs) (\<lambda>ys. pureS (y # ys))) w"
  proof (cases "f x w")
    case (Pair r w1)
    show ?thesis
    proof (cases r)
      case (Inl e)
      with Pair show ?thesis by (simp add: bindS_def)
    next
      case (Inr y)
      show ?thesis
      proof (cases "comprehension f xs w1")
        case P2: (Pair r2 w2)
        with Pair Inr show ?thesis by (cases r2) (simp_all add: bindS_def pureS_def)
      qed
    qed
  qed
qed

lemma clock_only_comprehension:
  assumes "\<And>x. clock_only (f x)"
  shows "clock_only (comprehension f xs)"
proof (induction xs)
  case Nil
  show ?case by (simp add: clock_only_def)
next
  case (Cons x xs)
  have "clock_only (bindS (f x) (\<lambda>y. bindS (comprehension f xs) (\<lambda>ys. pureS (y # ys))))"
    by (intro clock_only_bindS assms Cons clock_only_pureS)
  then show ?case by (simp only: comprehension_Cons)
qed

lemma clock_only_rss_entry: "clock_only (rss_entry E e)"
  unfolding rss_entry_def
  by (intro clock_only_bindS clock_only_liftE clock_only_now clock_only_pureS)

lemma clock_only_fallback: "clock_only (fallback_to_rss E q l c m)"
  unfolding fallback_to_rss_def
  by (intro clock_only_bindS clock_only_feed_parse clock_only_comprehension clock_only_rss_entry)

lemma clock_only_fetched_at: "clock_only (fetched_at_or_now E a)"
  by (simp add: fetched_at_or_now_def clock_only_pureS clock_only_now)

lemma clock_only_normalise_record: "clock_only (normalise_record E a)"
  unfolding normalise_record_def
  by (intro clock_only_bindS clock_only_liftE clock_only_fetched_at clock_only_pureS)

lemma clock_only_normalise: "clock_only (normalise E raw)"
  unfolding normalise_def
  by (intro clock_only_comprehension clock_only_normalise_record)

lemma clock_only_rss_then_normalise:
  "clock_only (bindS (fallback_to_rss E q l c m) (normalise E))"
  by (intro clock_only_bindS clock_only_fallback clock_only_normalise)

lemma bindS_Inr: "m w = (Inr x, w1) \<Longrightarrow> bindS m f w = f x w1"
  by (simp add: bindS_def)

lemma bindS_Inl: "m w = (Inl e, w1) \<Longrightarrow> bindS m f w = (Inl e, w1)"
  by (simp add: bindS_def)

lemma bindS_assoc: "bindS (bindS m f) g = bindS m (\<lambda>x. bindS (f x) g)"
  by (rule ext) (simp add: bindS_def split: prod.splits sum.splits)

lemmas run_defs = bindS_def pureS_def liftE_def normalise_def normalise_record_def
  fetched_at_or_now_def utc_now_isoformat_def dict_item_def dict_get_def dict_get_default_def
  py_or_def field_def

lemma fst_pause: "fst (pause E s w) = fst (pause E s w')"
  by (simp add: pause_def time_sleep_def pureS_def split: sum.splits)

lemma fst_then_pause:
  "fst (bindS act (\<lambda>n. bindS (pause E s) (\<lambda>u. pureS n)) w) =
     (case fst (act w) of
        Inl e \<Rightarrow> Inl e
      | Inr recs \<Rightarrow> (case fst (pause E s w) of Inl e \<Rightarrow> Inl e | Inr u \<Rightarrow> Inr recs))"
proof (cases "act w")
  case (Pair r w1)
  show ?thesis
  proof (cases r)
    case (Inl e)
    with Pair show ?thesis by (simp add: bindS_def)
  next
    case (Inr x)
    obtain r2 w2 where P2: "pause E s w1 = (r2, w2)" by (cases "pause E s w1")
    have "fst (pause E s w) = r2" using fst_pause[of E s w w1] P2 by simp
    with Pair Inr P2 show ?thesis by (cases r2) (simp_all add: bindS_def pureS_def)
  qed
qed

lemma pause_accepted:
  assumes "fst (pause E s w) = Inr ()"
  shows "(case r of
            Inl e \<Rightarrow> Inl e
          | Inr recs \<Rightarrow> (case fst (pause E s w) of Inl e \<Rightarrow> Inl e | Inr u \<Rightarrow> Inr recs)) = r"
  using assms by (cases r) simp_all

lemma gnews_try_empty:
  assumes "(\<exists>exc. gnews_get_news E l c p m q = Inl exc) \<or> gnews_get_news E l c p m q = Inr None
           \<or> gnews_get_news E l c p m q = Inr (Some [])"
  shows "\<exists>w1. gnews_try E l c p m q w = (Inr [], w1) \<and> now_calls w1 = now_calls w"
  using assms by (auto simp: gnews_try_def Let_def)

lemma client_ok:
  "gnews_init E l c p m = Inr () \<Longrightarrow> bindS (gnews_client E l c p m) G = G ()"
  by (rule ext) (simp add: gnews_client_def bindS_def liftE_def)

lemma client_fails:
  "gnews_init E l c p m = Inl e \<Longrightarrow> fetch_news_gnews E q l c p m ff s w = (Inl e, w)"
  by (simp add: fetch_news_gnews_def gnews_client_def bindS_def liftE_def)

lemma fetch_unforced_empty:
  assumes init: "gnews_init E language country period max_results = Inr ()"
    and lib: "(\<exists>exc. gnews_get_news E language country period max_results query = Inl exc)
         \<or> gnews_get_news E language country period max_results query = Inr None
         \<or> gnews_get_news E language country period max_results query = Inr (Some [])"
  shows "fst (fetch_news_gnews E query language country period max_results False sleep_sec w)
       = (case fst (bindS (fallback_to_rss E query language country max_results) (normalise E) w) of
            Inl e \<Rightarrow> Inl e
          | Inr recs \<Rightarrow> (case fst (pause E sleep_sec w) of Inl e \<Rightarrow> Inl e | Inr u \<Rightarrow> Inr recs))"
proof -
  let ?F = "bindS (fallback_to_rss E query language country max_results) (normalise E)"
  let ?K = "\<lambda>n. bindS (pause E sleep_sec) (\<lambda>u. pureS n)"
  obtain w1 where g: "gnews_try E language country period max_results query w = (Inr [], w1)"
    and n: "now_calls w1 = now_calls w"
    using gnews_try_empty[OF lib, of w] by blast
  have a: "bindS (gnews_try E language country period max_results query) G w = G [] w1"
    for G :: "dict list \<Rightarrow> dict list action"
    using g by (simp add: bindS_def)
  have "fetch_news_gnews E query language country period max_results False sleep_sec w
      = bindS (fallback_to_rss E query language country max_results)
          (\<lambda>raw. bindS (normalise E raw) ?K) w1"
    by (simp add: fetch_news_gnews_def client_ok[OF init] a)
  also have "\<dots> = bindS ?F ?K w1" by (simp only: bindS_assoc)
  finally have "fst (fetch_news_gnews E query language country period max_results False sleep_sec w)
      = fst (bindS ?F ?K w1)" by (rule arg_cong)
  also have "\<dots> = (case fst (?F w1) of
            Inl e \<Rightarrow> Inl e
          | Inr recs \<Rightarrow> (case fst (pause E sleep_sec w1) of Inl e \<Rightarrow> Inl e | Inr u \<Rightarrow> Inr recs))"
    by (rule fst_then_pause)
  also have "fst (?F w1) = fst (?F w)"
    by (rule clock_onlyD(1)[OF clock_only_rss_then_normalise n])
  also have "fst (pause E sleep_sec w1) = fst (pause E sleep_sec w)" by (rule fst_pause)
  finally show ?thesis .
qed

section \<open>The fallback chain\<close>

text \<open>
  Claim C1, as amended. In \<^verbatim>\<open>fetch_news_gnews\<close> with \<^verbatim>\<open>force_fallback\<close> false, when the
  client of the aggregation library is constructed without error for the configuration and
  its \<^verbatim>\<open>get_news\<close> call raises an exception or returns nothing (\<^verbatim>\<open>None\<close> or an empty
  list), that exception is not propagated, and the call goes on as follows. Its outcome is
  the outcome of normalising what \<^verbatim>\<open>_fallback_to_rss\<close> gives for the same query, language,
  country and maximum (the same list, or the same exception where the feed path raises one),
  followed by the pause: when the pause requested is zero or one that \<^verbatim>\<open>time.sleep\<close>
  accepts, the returned list is exactly the normalised output of the feed fallback; when
  \<^verbatim>\<open>time.sleep\<close> refuses the pause, its exception is raised after the fetch. An exception
  raised by the construction of the client is propagated, with no library call, no fallback
  and no other effect.
\<close>

theorem fallback_on_failure_or_empty:
  "(gnews_init E language country period max_results = Inr ()
     \<and> ((\<exists>exc. gnews_get_news E language country period max_results query = Inl exc)
        \<or> gnews_get_news E language country period max_results query = Inr None
        \<or> gnews_get_news E language country period max_results query = Inr (Some []))
    \<longrightarrow> fst (fetch_news_gnews E query language country period max_results False sleep_sec w)
          = (case fst (bindS (fallback_to_rss E query language country max_results) (normalise E) w) of
               Inl e \<Rightarrow> Inl e
             | Inr recs \<Rightarrow>
                 (case fst (pause E sleep_sec w) of Inl e \<Rightarrow> Inl e | Inr u \<Rightarrow> Inr recs))
        \<and> (fst (pause E sleep_sec w) = Inr ()
            \<longrightarrow> fst (fetch_news_gnews E query language country period max_results False sleep_sec w)
                = fst (bindS (fallback_to_rss E query language country max_results) (normalise E) w)))
   \<and> (\<forall>e. gnews_init E language country period max_results = Inl e
        \<longrightarrow> fetch_news_gnews E query language country period max_results False sleep_sec w
            = (Inl e, w))"
proof -
  let ?F = "bindS (fallback_to_rss E query language country max_results) (normalise E)"
  let ?L = "fst (fetch_news_gnews E query language country period max_results False sleep_sec w)"
  let ?R = "case fst (?F w) of
               Inl e \<Rightarrow> Inl e
             | Inr recs \<Rightarrow>
                 (case fst (pause E sleep_sec w) of Inl e \<Rightarrow> Inl e | Inr u \<Rightarrow> Inr recs)"
  have a: "?L = ?R \<and> (fst (pause E sleep_sec w) = Inr () \<longrightarrow> ?L = fst (?F w))"
    if init: "gnews_init E language country period max_results = Inr ()"
      and lib: "(\<exists>exc. gnews_get_news E language country period max_results query = Inl exc)
        \<or> gnews_get_news E language country period max_results query = Inr None
        \<or> gnews_get_news E language country period max_results query = Inr (Some [])"
  proof -
    have eq: "?L = ?R" by (rule fetch_unforced_empty[OF init lib])
    have "?L = fst (?F w)" if p: "fst (pause E sleep_sec w) = Inr ()"
      using eq pause_accepted[OF p, of "fst (?F w)"] by simp
    with eq show ?thesis by blast
  qed
  have b: "fetch_news_gnews E query language country period max_results False sleep_sec w = (Inl e, w)"
    if "gnews_init E language country period max_results = Inl e" for e
    using that by (rule client_fails)
  from a b show ?thesis by blast
qed

theorem fallback_on_failure_or_empty_witness:
  "gnews_init raising_env ''en'' ''US'' ''7d'' 10 = Inr ()
   \<and> gnews_get_news raising_env ''en'' ''US'' ''7d'' 10 ''World'' = Inl (OtherError ''boom'')
   \<and> fst (pause raising_env (Finite 2) world0) = Inr ()
   \<and> fst (fetch_news_gnews raising_env ''World'' ''en'' ''US'' ''7d'' 10 False (Finite 2) world0)
     = fst (bindS (fallback_to_rss raising_env ''World'' ''en'' ''US'' 10) (normalise raising_env) world0)
   \<and> gnews_init raising_env ''en'' ''US'' ''7d'' 0 = Inl (OtherError ''InvalidConfigError'')
   \<and> fetch_news_gnews raising_env ''World'' ''en'' ''US'' ''7d'' 0 False (Finite 2) world0
     = (Inl (OtherError ''InvalidConfigError''), world0)"
proof -
  have i: "gnews_init raising_env ''en'' ''US'' ''7d'' 10 = Inr ()"
    by (simp add: raising_env_def sample_gnews_init_def)
  have l: "gnews_get_news raising_env ''en'' ''US'' ''7d'' 10 ''World'' = Inl (OtherError ''boom'')"
    by (simp add: raising_env_def)
  have p: "fst (pause raising_env (Finite 2) world0) = Inr ()"
    by (simp add: pause_def time_sleep_def raising_env_def sample_sleep_range_def)
  have i0: "gnews_init raising_env ''en'' ''US'' ''7d'' 0 = Inl (OtherError ''InvalidConfigError'')"
    by (simp add: raising_env_def sample_gnews_init_def)
  from i l p i0 show ?thesis
    using fallback_on_failure_or_empty [where E = raising_env and language = "''en''"
            and country = "''US''" and period = "''7d''" and max_results = 10
            and query = "''World''" and sleep_sec = "Finite 2" and w = world0]
          fallback_on_failure_or_empty [where E = raising_env and language = "''en''"
            and country = "''US''" and period = "''7d''" and max_results = 0
            and query = "''World''" and sleep_sec = "Finite 2" and w = world0]
    by blast
qed

text \<open>
  The claim as written, for every error of the aggregation library and every configuration,
  fails when the library refuses the configuration: the client is constructed outside the
  \<^verbatim>\<open>try\<close>, so with a maximum of \<open>-1\<close> the exception of the constructor is propagated and
  the feed is never pulled, although the feed fallback for the same parameters gives a record.
\<close>

theorem constructor_error_propagated_counterexample:
  "gnews_get_news raising_env ''en'' ''US'' ''7d'' (-1) ''World'' = Inl (OtherError ''boom'')
   \<and> fetch_news_gnews raising_env ''World'' ''en'' ''US'' ''7d'' (-1) False (Finite 0) world0
     = (Inl (OtherError ''InvalidConfigError''), world0)
   \<and> fst (bindS (fallback_to_rss raising_env ''World'' ''en'' ''US'' (-1)) (normalise raising_env) world0)
     = Inr [[(''source'', PStr ''Wire''), (''title'', PStr ''Alpha''),
             (''description'', PStr ''first''), (''url'', PStr ''http://a.example/1''),
             (''image'', PNone), (''published_at'', PStr ''Wed, 01 May 2024 10:00:00 GMT''),
             (''fetched_at'', PStr ''2024-05-01T12:00:00+00:00'')]]"
  by (simp add: fetch_news_gnews_def gnews_client_def fallback_to_rss_def feed_parse_def
      rss_entry_def entry_source_def attr_def slice_to_def run_defs raising_env_def
      sample_gnews_init_def sample_clock_def entry_with_source_def entry_without_source_def
      world0_def)

lemma upd_now: "utc_now_isoformat (E\<lparr>gnews_get_news := g\<rparr>) = utc_now_isoformat E"
  by (rule ext) (simp add: utc_now_isoformat_def)

lemma upd_feed_parse: "feed_parse (E\<lparr>gnews_get_news := g\<rparr>) = feed_parse E"
  by (rule ext, rule ext) (simp add: feed_parse_def)

lemma upd_rss_url: "rss_url (E\<lparr>gnews_get_news := g\<rparr>) = rss_url E"
  by (rule ext, rule ext, rule ext) (simp add: rss_url_def)

lemma upd_rss_entry: "rss_entry (E\<lparr>gnews_get_news := g\<rparr>) = rss_entry E"
  by (rule ext) (simp only: rss_entry_def upd_now)

lemma upd_fallback: "fallback_to_rss (E\<lparr>gnews_get_news := g\<rparr>) = fallback_to_rss E"
  by (rule ext, rule ext, rule ext, rule ext)
     (simp only: fallback_to_rss_def upd_feed_parse upd_rss_url upd_rss_entry)

lemma upd_fetched_at: "fetched_at_or_now (E\<lparr>gnews_get_news := g\<rparr>) = fetched_at_or_now E"
  by (rule ext) (simp only: fetched_at_or_now_def upd_now)

lemma upd_normalise_record: "normalise_record (E\<lparr>gnews_get_news := g\<rparr>) = normalise_record E"
  by (rule ext) (simp only: normalise_record_def upd_fetched_at)

lemma upd_normalise: "normalise (E\<lparr>gnews_get_news := g\<rparr>) = normalise E"
  by (rule ext) (simp only: normalise_def upd_normalise_record)

lemma upd_sleep_check: "sleep_check (E\<lparr>gnews_get_news := g\<rparr>) s = sleep_check E s"
  by (cases s) simp_all

lemma upd_pause: "pause (E\<lparr>gnews_get_news := g\<rparr>) = pause E"
  by (rule ext, rule ext) (simp add: pause_def time_sleep_def upd_sleep_check)

lemma upd_client: "gnews_client (E\<lparr>gnews_get_news := g\<rparr>) = gnews_client E"
  by (rule ext, rule ext, rule ext, rule ext) (simp add: gnews_client_def)

lemma fetch_forced_unfold:
  "fetch_news_gnews E query language country period max_results True sleep_sec
   = bindS (gnews_client E language country period max_results) (\<lambda>gn.
       bindS (bindS (fallback_to_rss E query language country max_results) (normalise E))
         (\<lambda>n. bindS (pause E sleep_sec) (\<lambda>u. pureS n)))"
proof -
  have b: "bindS (pureS ([]::dict list)) G = G []" for G :: "dict list \<Rightarrow> dict list action"
    by (rule ext) (simp add: bindS_def pureS_def)
  have "fetch_news_gnews E query language country period max_results True sleep_sec
      = bindS (gnews_client E language country period max_results) (\<lambda>gn.
          bindS (pureS ([]::dict list)) (\<lambda>raw0.
            bindS (fallback_to_rss E query language country max_results)
              (\<lambda>raw. bindS (normalise E raw)
                (\<lambda>n. bindS (pause E sleep_sec) (\<lambda>u. pureS n)))))"
    by (simp add: fetch_news_gnews_def)
  then show ?thesis by (simp only: b bindS_assoc)
qed

lemma fetch_forced:
  assumes init: "gnews_init E language country period max_results = Inr ()"
  shows "fst (fetch_news_gnews E query language country period max_results True sleep_sec w)
       = (case fst (bindS (fallback_to_rss E query language country max_results) (normalise E) w) of
            Inl e \<Rightarrow> Inl e
          | Inr recs \<Rightarrow> (case fst (pause E sleep_sec w) of Inl e \<Rightarrow> Inl e | Inr u \<Rightarrow> Inr recs))"
  by (simp only: fetch_forced_unfold client_ok[OF init] fst_then_pause)

text \<open>
  Claim C2, as amended. With \<^verbatim>\<open>force_fallback\<close> true the result of the library's
  \<^verbatim>\<open>get_news\<close> is never used: replacing it by any other, also one that returns records,
  leaves the whole outcome unchanged. The client of the library is constructed all the same,
  before the flag is looked at, and an exception of its constructor is propagated with no
  feed pulled. For every configuration that the constructor accepts, the outcome of the call
  is the outcome of normalising the output of \<^verbatim>\<open>_fallback_to_rss\<close> for the same
  parameters, followed by the pause: the returned list is exactly the normalised output of
  the feed fallback when the pause requested is zero or one that \<^verbatim>\<open>time.sleep\<close> accepts,
  and the exception of \<^verbatim>\<open>time.sleep\<close> is raised after the fetch otherwise.
\<close>

theorem forced_fallback:
  "(gnews_init E language country period max_results = Inr ()
    \<longrightarrow> fst (fetch_news_gnews E query language country period max_results True sleep_sec w)
          = (case fst (bindS (fallback_to_rss E query language country max_results) (normalise E) w) of
               Inl e \<Rightarrow> Inl e
             | Inr recs \<Rightarrow>
                 (case fst (pause E sleep_sec w) of Inl e \<Rightarrow> Inl e | Inr u \<Rightarrow> Inr recs))
        \<and> (fst (pause E sleep_sec w) = Inr ()
            \<longrightarrow> fst (fetch_news_gnews E query language country period max_results True sleep_sec w)
                = fst (bindS (fallback_to_rss E query language country max_results) (normalise E) w)))
   \<and> (\<forall>e. gnews_init E language country period max_results = Inl e
        \<longrightarrow> fetch_news_gnews E query language country period max_results True sleep_sec w
            = (Inl e, w))
   \<and> fetch_news_gnews (E\<lparr>gnews_get_news := g\<rparr>) query language country period max_results True sleep_sec w
     = fetch_news_gnews E query language country period max_results True sleep_sec w"
proof -
  let ?F = "bindS (fallback_to_rss E query language country max_results) (normalise E)"
  let ?L = "fst (fetch_news_gnews E query language country period max_results True sleep_sec w)"
  let ?R = "case fst (?F w) of
               Inl e \<Rightarrow> Inl e
             | Inr recs \<Rightarrow>
                 (case fst (pause E sleep_sec w) of Inl e \<Rightarrow> Inl e | Inr u \<Rightarrow> Inr recs)"
  have a: "?L = ?R \<and> (fst (pause E sleep_sec w) = Inr () \<longrightarrow> ?L = fst (?F w))"
    if init: "gnews_init E language country period max_results = Inr ()"
  proof -
    have eq: "?L = ?R" by (rule fetch_forced[OF init])
    have "?L = fst (?F w)" if p: "fst (pause E sleep_sec w) = Inr ()"
      using eq pause_accepted[OF p, of "fst (?F w)"] by simp
    with eq show ?thesis by blast
  qed
  have b: "fetch_news_gnews E query language country period max_results True sleep_sec w = (Inl e, w)"
    if "gnews_init E language country period max_results = Inl e" for e
    using that by (rule client_fails)
  have c: "fetch_news_gnews (E\<lparr>gnews_get_news := g\<rparr>) query language country period max_results True sleep_sec w
     = fetch_news_gnews E query language country period max_results True sleep_sec w"
    by (simp only: fetch_forced_unfold upd_fallback upd_normalise upd_pause upd_client)
  from a b c show ?thesis by blast
qed

theorem forced_fallback_witness:
  "gnews_init library_env ''en'' ''US'' ''7d'' 10 = Inr ()
   \<and> gnews_get_news library_env ''en'' ''US'' ''7d'' 10 ''World'' = Inr (Some [library_record])
   \<and> fst (pause library_env (Finite 2) world0) = Inr ()
   \<and> fst (fetch_news_gnews library_env ''World'' ''en'' ''US'' ''7d'' 10 True (Finite 2) world0)
     = fst (bindS (fallback_to_rss library_env ''World'' ''en'' ''US'' 10) (normalise library_env) world0)
   \<and> gnews_init library_env ''en'' ''US'' ''7d'' (-1) = Inl (OtherError ''InvalidConfigError'')
   \<and> fetch_news_gnews library_env ''World'' ''en'' ''US'' ''7d'' (-1) True (Finite 2) world0
     = (Inl (OtherError ''InvalidConfigError''), world0)"
proof -
  have i: "gnews_init library_env ''en'' ''US'' ''7d'' 10 = Inr ()"
    by (simp add: library_env_def sample_gnews_init_def)
  have l: "gnews_get_news library_env ''en'' ''US'' ''7d'' 10 ''World'' = Inr (Some [library_record])"
    by (simp add: library_env_def)
  have p: "fst (pause library_env (Finite 2) world0) = Inr ()"
    by (simp add: pause_def time_sleep_def library_env_def sample_sleep_range_def)
  have i0: "gnews_init library_env ''en'' ''US'' ''7d'' (-1) = Inl (OtherError ''InvalidConfigError'')"
    by (simp add: library_env_def sample_gnews_init_def)
  from i l p i0 show ?thesis
    using forced_fallback [where E = library_env and language = "''en''"
            and country = "''US''" and period = "''7d''" and max_results = 10
            and query = "''World''" and sleep_sec = "Finite 2" and w = world0]
          forced_fallback [where E = library_env and language = "''en''"
            and country = "''US''" and period = "''7d''" and max_results = "-1"
            and query = "''World''" and sleep_sec = "Finite 2" and w = world0]
    by blast
qed

text \<open>
  The claim as written, for every configuration, fails on a configuration that the library
  refuses: with a maximum of \<open>0\<close> and the fallback forced, the exception of the constructor
  is propagated, although the feed fallback for the same parameters returns a list (the
  empty one).
\<close>

theorem forced_constructor_error_counterexample:
  "fetch_news_gnews library_env ''World'' ''en'' ''US'' ''7d'' 0 True (Finite 0) world0
     = (Inl (OtherError ''InvalidConfigError''), world0)
   \<and> fst (bindS (fallback_to_rss library_env ''World'' ''en'' ''US'' 0) (normalise library_env) world0)
     = Inr []"
  by (simp add: fetch_news_gnews_def gnews_client_def fallback_to_rss_def feed_parse_def
      slice_to_def run_defs library_env_def sample_gnews_init_def world0_def)

lemma fetched_at_or_now_eval:
  "fetched_at_or_now E a w =
     (if truthy (dict_get a ''fetched_at'') then (Inr (dict_get a ''fetched_at''), w)
      else (Inr (PStr (clock E (now_calls w))), w\<lparr>now_calls := Suc (now_calls w)\<rparr>))"
  by (simp add: fetched_at_or_now_def pureS_def utc_now_isoformat_def)

lemma normalise_record_eval:
  "normalise_record E a w =
     (case map_of a ''title'' of
        None \<Rightarrow> (Inl (KeyError ''title''), w)
      | Some t \<Rightarrow>
          (case map_of a ''url'' of
             None \<Rightarrow> (Inl (KeyError ''url''), w)
           | Some u \<Rightarrow>
               (Inr [(''source'', py_or (dict_get a ''source'') (dict_get a ''publisher'')),
                     (''title'', t),
                     (''description'', dict_get_default a ''description'' (PStr [])),
                     (''url'', u),
                     (''image'', dict_get a ''image''),
                     (''published_at'',
                        py_or (py_or (dict_get a ''published_at'') (dict_get a ''published date''))
                              (dict_get a ''published'')),
                     (''fetched_at'',
                        if truthy (dict_get a ''fetched_at'') then dict_get a ''fetched_at''
                        else PStr (clock E (now_calls w)))],
                if truthy (dict_get a ''fetched_at'') then w
                else w\<lparr>now_calls := Suc (now_calls w)\<rparr>)))"
  by (simp add: normalise_record_def bindS_def liftE_def dict_item_def pureS_def
      fetched_at_or_now_eval split: option.splits)

lemma comprehension_Inr_Cons:
  assumes "comprehension f (x # xs) w = (Inr ys, w')"
  obtains y ys' w1 where "f x w = (Inr y, w1)" and "comprehension f xs w1 = (Inr ys', w')"
    and "ys = y # ys'"
proof -
  obtain r w1 where P: "f x w = (r, w1)" by (cases "f x w")
  show thesis
  proof (cases r)
    case (Inl e)
    with P assms show ?thesis by simp
  next
    case (Inr y)
    obtain r2 w2 where P2: "comprehension f xs w1 = (r2, w2)" by (cases "comprehension f xs w1")
    show ?thesis
    proof (cases r2)
      case I2: (Inl e)
      with P Inr P2 assms show ?thesis by simp
    next
      case I2: (Inr ys')
      with P Inr P2 assms have "ys = y # ys'" "w2 = w'" by simp_all
      with P Inr P2 I2 that show ?thesis by simp
    qed
  qed
qed

lemma comprehension_length:
  "comprehension f xs w = (Inr ys, w') \<Longrightarrow> length ys = length xs"
proof (induction xs arbitrary: ys w)
  case Nil
  then show ?case by simp
next
  case (Cons x xs)
  from Cons.prems obtain y ys' w1 where "comprehension f xs w1 = (Inr ys', w')" "ys = y # ys'"
    by (rule comprehension_Inr_Cons)
  with Cons.IH show ?case by simp
qed


lemma unstamped_Nil: "unstamped [] = 0"
  by (simp add: unstamped_def)

lemma unstamped_Cons:
  "unstamped (a # raw) = (if truthy (dict_get a ''fetched_at'') then 0 else 1) + unstamped raw"
  by (simp add: unstamped_def)

lemma normalise_record_clock:
  assumes "normalise_record E a w = (Inr r, w1)"
  shows "now_calls w1 = now_calls w + (if truthy (dict_get a ''fetched_at'') then 0 else 1)"
  using assms by (auto simp: normalise_record_eval split: option.splits if_splits)

lemma normalise_nth:
  assumes "normalise E raw w = (Inr recs, w')"
  shows "length recs = length raw \<and> now_calls w' = now_calls w + unstamped raw \<and>
         (\<forall>i<length raw. \<forall>u. now_calls u = now_calls w + unstamped (take i raw) \<longrightarrow>
              fst (normalise_record E (raw ! i) u) = Inr (recs ! i))"
  using assms
proof (induction raw arbitrary: recs w)
  case Nil
  then show ?case by (simp add: normalise_def unstamped_Nil)
next
  case (Cons a raw)
  from Cons.prems have "comprehension (normalise_record E) (a # raw) w = (Inr recs, w')"
    by (simp add: normalise_def)
  then obtain y ys' w1 where
    h: "normalise_record E a w = (Inr y, w1)" and
    t: "comprehension (normalise_record E) raw w1 = (Inr ys', w')" and
    r: "recs = y # ys'"
    by (rule comprehension_Inr_Cons)
  from t have t': "normalise E raw w1 = (Inr ys', w')" by (simp add: normalise_def)
  note IH = Cons.IH[OF t']
  have c1: "now_calls w1 = now_calls w + (if truthy (dict_get a ''fetched_at'') then 0 else 1)"
    by (rule normalise_record_clock[OF h])
  have len: "length recs = length (a # raw)" using IH r by simp
  have clk: "now_calls w' = now_calls w + unstamped (a # raw)"
    using IH c1 by (simp add: unstamped_Cons)
  have nth: "fst (normalise_record E ((a # raw) ! i) u) = Inr (recs ! i)"
    if i: "i < length (a # raw)" and u: "now_calls u = now_calls w + unstamped (take i (a # raw))"
    for i u
  proof (cases i)
    case 0
    with u have "now_calls u = now_calls w" by (simp add: unstamped_Nil)
    then have "fst (normalise_record E a u) = fst (normalise_record E a w)"
      by (rule clock_onlyD(1)[OF clock_only_normalise_record])
    with h r 0 show ?thesis by simp
  next
    case (Suc j)
    with i have j: "j < length raw" by simp
    from u Suc c1 have "now_calls u = now_calls w1 + unstamped (take j raw)"
      by (simp add: unstamped_Cons)
    with IH j have "fst (normalise_record E (raw ! j) u) = Inr (ys' ! j)" by blast
    with Suc r show ?thesis by simp
  qed
  from len clk nth show ?case by blast
qed


lemma normalise_record_Inr:
  assumes "fst (normalise_record E a u) = Inr r"
  shows "\<exists>t l. map_of a ''title'' = Some t \<and> map_of a ''url'' = Some l \<and>
     r = [(''source'', py_or (dict_get a ''source'') (dict_get a ''publisher'')),
          (''title'', t),
          (''description'', dict_get_default a ''description'' (PStr [])),
          (''url'', l),
          (''image'', dict_get a ''image''),
          (''published_at'',
             py_or (py_or (dict_get a ''published_at'') (dict_get a ''published date''))
                   (dict_get a ''published'')),
          (''fetched_at'',
             if truthy (dict_get a ''fetched_at'') then dict_get a ''fetched_at''
             else PStr (clock E (now_calls u)))]"
  using assms by (auto simp: normalise_record_eval split: option.splits)

lemma normalise_record_published_at:
  assumes "fst (normalise_record E a u) = Inr r"
  shows "field ''published_at'' r =
     (if truthy (dict_get a ''published_at'') then dict_get a ''published_at''
      else if truthy (dict_get a ''published date'') then dict_get a ''published date''
      else dict_get a ''published'')"
proof -
  from normalise_record_Inr[OF assms] obtain t l where
    "r = [(''source'', py_or (dict_get a ''source'') (dict_get a ''publisher'')),
          (''title'', t),
          (''description'', dict_get_default a ''description'' (PStr [])),
          (''url'', l),
          (''image'', dict_get a ''image''),
          (''published_at'',
             py_or (py_or (dict_get a ''published_at'') (dict_get a ''published date''))
                   (dict_get a ''published'')),
          (''fetched_at'',
             if truthy (dict_get a ''fetched_at'') then dict_get a ''fetched_at''
             else PStr (clock E (now_calls u)))]" by blast
  then have "field ''published_at'' r =
     py_or (py_or (dict_get a ''published_at'') (dict_get a ''published date''))
           (dict_get a ''published'')"
    by (simp add: field_def dict_get_def)
  then show ?thesis by (simp add: py_or_def)
qed

lemma normalise_record_fetched_at:
  assumes "fst (normalise_record E a u) = Inr r"
  shows "field ''fetched_at'' r =
     (if truthy (dict_get a ''fetched_at'') then dict_get a ''fetched_at''
      else PStr (clock E (now_calls u)))"
proof -
  from normalise_record_Inr[OF assms] obtain t l where
    "r = [(''source'', py_or (dict_get a ''source'') (dict_get a ''publisher'')),
          (''title'', t),
          (''description'', dict_get_default a ''description'' (PStr [])),
          (''url'', l),
          (''image'', dict_get a ''image''),
          (''published_at'',
             py_or (py_or (dict_get a ''published_at'') (dict_get a ''published date''))
                   (dict_get a ''published'')),
          (''fetched_at'',
             if truthy (dict_get a ''fetched_at'') then dict_get a ''fetched_at''
             else PStr (clock E (now_calls u)))]" by blast
  then show ?thesis by (simp add: field_def dict_get_def)
qed

lemma normalise_at:
  assumes "fst (normalise E raw w) = Inr recs" and "i < length raw"
  shows "fst (normalise_record E (raw ! i) (w\<lparr>now_calls := now_calls w + unstamped (take i raw)\<rparr>))
         = Inr (recs ! i)"
proof -
  obtain w' where "normalise E raw w = (Inr recs, w')"
    using assms(1) by (cases "normalise E raw w") simp
  from normalise_nth[OF this] assms(2) show ?thesis by simp
qed

section \<open>Normalisation of the fields\<close>

text \<open>
  Claim C3, as amended. In the normalisation step of \<^verbatim>\<open>fetch_news_gnews\<close>, for every raw
  record the normalised \<^verbatim>\<open>published_at\<close> is the first truthy value (neither null nor
  empty nor zero) among the keys \<^verbatim>\<open>published_at\<close> and \<^verbatim>\<open>published date\<close>, in that order,
  and otherwise whatever \<^verbatim>\<open>published\<close> holds (null when absent). In particular a record
  whose \<^verbatim>\<open>published_at\<close> is a non-empty string \<open>A\<close> normalises to \<open>A\<close>, whatever
  \<^verbatim>\<open>published date\<close> holds.
\<close>

theorem published_at_first_truthy:
  assumes "fst (normalise E raw w) = Inr recs"
  shows "\<forall>i<length raw.
           field ''published_at'' (recs ! i) =
             (if truthy (dict_get (raw ! i) ''published_at'') then dict_get (raw ! i) ''published_at''
              else if truthy (dict_get (raw ! i) ''published date'')
                   then dict_get (raw ! i) ''published date''
              else dict_get (raw ! i) ''published'')
         \<and> (\<forall>A. A \<noteq> [] \<and> map_of (raw ! i) ''published_at'' = Some (PStr A)
                 \<longrightarrow> field ''published_at'' (recs ! i) = PStr A)"
proof (intro allI impI)
  fix i assume i: "i < length raw"
  have p: "field ''published_at'' (recs ! i) =
             (if truthy (dict_get (raw ! i) ''published_at'') then dict_get (raw ! i) ''published_at''
              else if truthy (dict_get (raw ! i) ''published date'')
                   then dict_get (raw ! i) ''published date''
              else dict_get (raw ! i) ''published'')"
    by (rule normalise_record_published_at[OF normalise_at[OF assms i]])
  have "field ''published_at'' (recs ! i) = PStr A"
    if "A \<noteq> [] \<and> map_of (raw ! i) ''published_at'' = Some (PStr A)" for A
    using that p by (simp add: dict_get_def)
  with p show "field ''published_at'' (recs ! i) =
             (if truthy (dict_get (raw ! i) ''published_at'') then dict_get (raw ! i) ''published_at''
              else if truthy (dict_get (raw ! i) ''published date'')
                   then dict_get (raw ! i) ''published date''
              else dict_get (raw ! i) ''published'')
         \<and> (\<forall>A. A \<noteq> [] \<and> map_of (raw ! i) ''published_at'' = Some (PStr A)
                 \<longrightarrow> field ''published_at'' (recs ! i) = PStr A)" by blast
qed

theorem published_at_first_truthy_witness:
  "fst (normalise library_env [stamped_record] world0)
     = Inr [[(''source'', PNone), (''title'', PStr ''Delta''), (''description'', PStr []),
             (''url'', PStr ''http://d.example/4''), (''image'', PNone),
             (''published_at'', PStr ''A''), (''fetched_at'', PStr ''T0'')]]
   \<and> map_of ([stamped_record] ! 0) ''published_at'' = Some (PStr ''A'')
   \<and> map_of ([stamped_record] ! 0) ''published date'' = Some (PStr ''B'')
   \<and> field ''published_at''
        ([[(''source'', PNone), (''title'', PStr ''Delta''), (''description'', PStr []),
           (''url'', PStr ''http://d.example/4''), (''image'', PNone),
           (''published_at'', PStr ''A''), (''fetched_at'', PStr ''T0'')]] ! 0) = PStr ''A''"
  using published_at_first_truthy [of library_env "[stamped_record]" world0
    "[[(''source'', PNone), (''title'', PStr ''Delta''), (''description'', PStr []),
             (''url'', PStr ''http://d.example/4''), (''image'', PNone),
             (''published_at'', PStr ''A''), (''fetched_at'', PStr ''T0'')]]"]
  by (simp add: run_defs stamped_record_def world0_def)

text \<open>
  The claim as written, with the first non-null value winning, fails on a record whose
  \<^verbatim>\<open>published_at\<close> is the empty string: the value of \<^verbatim>\<open>published date\<close> is taken.
\<close>

theorem published_at_first_non_null_counterexample:
  "dict_get blank_published_record ''published_at'' = PStr []
   \<and> dict_get blank_published_record ''published_at'' \<noteq> PNone
   \<and> fst (normalise library_env [blank_published_record] world0)
     = Inr [[(''source'', PNone), (''title'', PStr ''Epsilon''), (''description'', PStr []),
             (''url'', PStr ''http://e.example/5''), (''image'', PNone),
             (''published_at'', PStr ''B''),
             (''fetched_at'', PStr ''2024-05-01T12:00:00+00:00'')]]"
  by (simp add: run_defs blank_published_record_def world0_def library_env_def sample_clock_def)

text \<open>
  Claim C4, as amended. In the normalisation step, a raw record that carries a truthy
  \<^verbatim>\<open>fetched_at\<close> (neither null nor empty) keeps exactly that value, and the clock is not
  read for it; every other record, whose \<^verbatim>\<open>fetched_at\<close> is absent, null or otherwise
  falsy, is stamped with the reading of the clock taken when its turn comes. The clock is
  read once per record stamped.
\<close>

theorem fetched_at_preserved_when_truthy:
  assumes "fst (normalise E raw w) = Inr recs"
  shows "(\<forall>i<length raw.
            (truthy (dict_get (raw ! i) ''fetched_at'')
               \<longrightarrow> field ''fetched_at'' (recs ! i) = dict_get (raw ! i) ''fetched_at'')
          \<and> (\<not> truthy (dict_get (raw ! i) ''fetched_at'')
               \<longrightarrow> field ''fetched_at'' (recs ! i)
                     = PStr (clock E (now_calls w + unstamped (take i raw)))))
         \<and> now_calls (snd (normalise E raw w)) = now_calls w + unstamped raw"
proof
  show "\<forall>i<length raw.
            (truthy (dict_get (raw ! i) ''fetched_at'')
               \<longrightarrow> field ''fetched_at'' (recs ! i) = dict_get (raw ! i) ''fetched_at'')
          \<and> (\<not> truthy (dict_get (raw ! i) ''fetched_at'')
               \<longrightarrow> field ''fetched_at'' (recs ! i)
                     = PStr (clock E (now_calls w + unstamped (take i raw))))"
  proof (intro allI impI)
    fix i assume i: "i < length raw"
    have "field ''fetched_at'' (recs ! i) =
       (if truthy (dict_get (raw ! i) ''fetched_at'') then dict_get (raw ! i) ''fetched_at''
        else PStr (clock E (now_calls (w\<lparr>now_calls := now_calls w + unstamped (take i raw)\<rparr>))))"
      by (rule normalise_record_fetched_at[OF normalise_at[OF assms i]])
    then show "(truthy (dict_get (raw ! i) ''fetched_at'')
               \<longrightarrow> field ''fetched_at'' (recs ! i) = dict_get (raw ! i) ''fetched_at'')
          \<and> (\<not> truthy (dict_get (raw ! i) ''fetched_at'')
               \<longrightarrow> field ''fetched_at'' (recs ! i)
                     = PStr (clock E (now_calls w + unstamped (take i raw))))"
      by simp
  qed
  obtain w' where n: "normalise E raw w = (Inr recs, w')"
    using assms by (cases "normalise E raw w") simp
  from normalise_nth[OF n] have "now_calls w' = now_calls w + unstamped raw" by blast
  with n show "now_calls (snd (normalise E raw w)) = now_calls w + unstamped raw" by simp
qed

theorem fetched_at_preserved_when_truthy_witness:
  "fst (normalise library_env [stamped_record, library_record] world0)
     = Inr [[(''source'', PNone), (''title'', PStr ''Delta''), (''description'', PStr []),
             (''url'', PStr ''http://d.example/4''), (''image'', PNone),
             (''published_at'', PStr ''A''), (''fetched_at'', PStr ''T0'')],
            [(''source'', PDict [(''href'', PStr ''http://c.example''), (''title'', PStr ''Daily'')]),
             (''title'', PStr ''Gamma''), (''description'', PStr ''third''),
             (''url'', PStr ''http://c.example/3''), (''image'', PNone),
             (''published_at'', PStr ''Wed, 01 May 2024 09:00:00 GMT''),
             (''fetched_at'', PStr ''2024-05-01T12:00:00+00:00'')]]
   \<and> truthy (dict_get ([stamped_record, library_record] ! 0) ''fetched_at'')
   \<and> dict_get ([stamped_record, library_record] ! 0) ''fetched_at'' = PStr ''T0''
   \<and> \<not> truthy (dict_get ([stamped_record, library_record] ! 1) ''fetched_at'')
   \<and> now_calls (snd (normalise library_env [stamped_record, library_record] world0)) = 1"
  using fetched_at_preserved_when_truthy [of library_env "[stamped_record, library_record]" world0
     "[[(''source'', PNone), (''title'', PStr ''Delta''), (''description'', PStr []),
             (''url'', PStr ''http://d.example/4''), (''image'', PNone),
             (''published_at'', PStr ''A''), (''fetched_at'', PStr ''T0'')],
            [(''source'', PDict [(''href'', PStr ''http://c.example''), (''title'', PStr ''Daily'')]),
             (''title'', PStr ''Gamma''), (''description'', PStr ''third''),
             (''url'', PStr ''http://c.example/3''), (''image'', PNone),
             (''published_at'', PStr ''Wed, 01 May 2024 09:00:00 GMT''),
             (''fetched_at'', PStr ''2024-05-01T12:00:00+00:00'')]]"]
  by (simp add: run_defs stamped_record_def library_record_def world0_def library_env_def
      sample_clock_def)

text \<open>
  The claim as written fails on a record that carries the empty string as its
  \<^verbatim>\<open>fetched_at\<close>: the value is replaced by the current time.
\<close>

theorem fetched_at_overwritten_counterexample:
  "dict_get blank_fetched_record ''fetched_at'' = PStr []
   \<and> dict_get blank_fetched_record ''fetched_at'' \<noteq> PNone
   \<and> fst (normalise library_env [blank_fetched_record] world0)
     = Inr [[(''source'', PNone), (''title'', PStr ''Zeta''), (''description'', PStr []),
             (''url'', PStr ''http://f.example/6''), (''image'', PNone),
             (''published_at'', PNone),
             (''fetched_at'', PStr ''2024-05-01T12:00:00+00:00'')]]"
  by (simp add: run_defs blank_fetched_record_def world0_def library_env_def sample_clock_def)

section \<open>The key of the keyed backend\<close>

text \<open>
  Claim C7. \<^verbatim>\<open>fetch_news_newsapi\<close> called with no explicit key (\<^verbatim>\<open>None\<close>) while the
  variable \<^verbatim>\<open>NEWSAPI_KEY\<close> is not set raises the exception that the code has for a missing
  credential, a \<^verbatim>\<open>ValueError\<close> with the message asking for the key, and leaves the world
  as it was: no request is sent, no other backend is tried, the clock is not read.
\<close>

theorem missing_key_raises:
  assumes "getenv E ''NEWSAPI_KEY'' = None"
  shows "fetch_news_newsapi E None query language page_size w
         = (Inl (ValueError missing_key_message), w)"
  using assms by (simp add: fetch_news_newsapi_def resolve_api_key_def liftE_def)

theorem missing_key_raises_witness:
  "getenv raising_env ''NEWSAPI_KEY'' = None
   \<and> fetch_news_newsapi raising_env None ''top headlines'' ''en'' 20 world0
     = (Inl (ValueError ''Set NEWSAPI_KEY env var or pass --newsapi-key''), world0)
   \<and> net_log (snd (fetch_news_newsapi raising_env None ''top headlines'' ''en'' 20 world0)) = []"
proof -
  have g: "getenv raising_env ''NEWSAPI_KEY'' = None" by (simp add: raising_env_def)
  from g show ?thesis
    using missing_key_raises [where E = raising_env and query = "''top headlines''"
            and language = "''en''" and page_size = 20 and w = world0]
    by (simp add: missing_key_message_def world0_def)
qed

lemma getenv_now: "utc_now_isoformat (E\<lparr>getenv := g\<rparr>) = utc_now_isoformat E"
  by (rule ext) (simp add: utc_now_isoformat_def)

lemma getenv_article: "newsapi_article (E\<lparr>getenv := g\<rparr>) = newsapi_article E"
  by (rule ext) (simp only: newsapi_article_def getenv_now)

lemma getenv_http_get: "http_get (E\<lparr>getenv := g\<rparr>) = http_get E"
  by (rule ext, rule ext, rule ext) (simp add: http_get_def)

lemma getenv_request: "newsapi_request (E\<lparr>getenv := g\<rparr>) = newsapi_request E"
  by (rule ext, rule ext, rule ext, rule ext)
     (simp only: newsapi_request_def getenv_http_get getenv_article)

lemma fetch_with_key:
  "k \<noteq> [] \<Longrightarrow> fetch_news_newsapi E (Some k) q l ps = newsapi_request E k q l ps"
  by (simp add: fetch_news_newsapi_def resolve_api_key_def)

lemma net_log_article: "net_log (snd (newsapi_article E a w)) = net_log w"
  by (simp add: newsapi_article_def bindS_def liftE_def pureS_def utc_now_isoformat_def
      split: sum.splits)

lemma net_log_comprehension:
  assumes "\<And>x w. net_log (snd (f x w)) = net_log w"
  shows "net_log (snd (comprehension f xs w)) = net_log w"
proof (induction xs arbitrary: w)
  case Nil
  show ?case by simp
next
  case (Cons x xs)
  obtain r w1 where P: "f x w = (r, w1)" by (cases "f x w")
  from assms[of x w] P have n1: "net_log w1 = net_log w" by simp
  show ?case
  proof (cases r)
    case (Inl e)
    with P n1 show ?thesis by simp
  next
    case (Inr y)
    obtain r2 w2 where P2: "comprehension f xs w1 = (r2, w2)" by (cases "comprehension f xs w1")
    from Cons.IH[of w1] P2 n1 have "net_log w2 = net_log w" by simp
    with P Inr P2 show ?thesis by (cases r2) simp_all
  qed
qed

lemma net_log_request:
  "net_log (snd (newsapi_request E k q l ps w)) =
     net_log w @ [HttpGet newsapi_url
        [(''q'', PStr q), (''language'', PStr l), (''sortBy'', PStr ''publishedAt''),
         (''pageSize'', PInt ps), (''apiKey'', PStr k)]]"
  by (simp add: newsapi_request_def bindS_def liftE_def http_get_def
      net_log_comprehension[OF net_log_article] split: sum.splits)

text \<open>
  Claim C10. In \<^verbatim>\<open>fetch_news_newsapi\<close> a non-empty explicit key is the credential: the
  call is the request made with that key, the one request sent carries it as \<^verbatim>\<open>apiKey\<close>,
  and the outcome does not depend on the environment. An explicit empty string behaves
  exactly as no key at all: the request is made with the non-empty value of \<^verbatim>\<open>NEWSAPI_KEY\<close>
  when there is one, and when the variable is unset or empty the call raises the missing-key
  exception without sending anything.
\<close>

theorem api_key_resolution:
  "(k \<noteq> [] \<longrightarrow>
      fetch_news_newsapi E (Some k) q l ps w = newsapi_request E k q l ps w
      \<and> fetch_news_newsapi (E\<lparr>getenv := g\<rparr>) (Some k) q l ps w
          = fetch_news_newsapi E (Some k) q l ps w
      \<and> net_log (snd (fetch_news_newsapi E (Some k) q l ps w)) =
          net_log w @ [HttpGet newsapi_url
            [(''q'', PStr q), (''language'', PStr l), (''sortBy'', PStr ''publishedAt''),
             (''pageSize'', PInt ps), (''apiKey'', PStr k)]])
   \<and> fetch_news_newsapi E (Some []) q l ps w = fetch_news_newsapi E None q l ps w
   \<and> (k' \<noteq> [] \<and> getenv E ''NEWSAPI_KEY'' = Some k' \<longrightarrow>
        fetch_news_newsapi E (Some []) q l ps w = newsapi_request E k' q l ps w)
   \<and> (getenv E ''NEWSAPI_KEY'' = None \<or> getenv E ''NEWSAPI_KEY'' = Some [] \<longrightarrow>
        fetch_news_newsapi E (Some []) q l ps w = (Inl (ValueError missing_key_message), w))"
proof (intro conjI impI)
  assume k: "k \<noteq> []"
  show "fetch_news_newsapi E (Some k) q l ps w = newsapi_request E k q l ps w"
    by (simp only: fetch_with_key[OF k])
  show "fetch_news_newsapi (E\<lparr>getenv := g\<rparr>) (Some k) q l ps w
          = fetch_news_newsapi E (Some k) q l ps w"
    by (simp only: fetch_with_key[OF k] getenv_request)
  show "net_log (snd (fetch_news_newsapi E (Some k) q l ps w)) =
          net_log w @ [HttpGet newsapi_url
            [(''q'', PStr q), (''language'', PStr l), (''sortBy'', PStr ''publishedAt''),
             (''pageSize'', PInt ps), (''apiKey'', PStr k)]]"
    by (simp only: fetch_with_key[OF k] net_log_request)
next
  show "fetch_news_newsapi E (Some []) q l ps w = fetch_news_newsapi E None q l ps w"
    by (simp add: fetch_news_newsapi_def resolve_api_key_def)
next
  assume "k' \<noteq> [] \<and> getenv E ''NEWSAPI_KEY'' = Some k'"
  then show "fetch_news_newsapi E (Some []) q l ps w = newsapi_request E k' q l ps w"
    by (simp add: fetch_news_newsapi_def resolve_api_key_def)
next
  assume "getenv E ''NEWSAPI_KEY'' = None \<or> getenv E ''NEWSAPI_KEY'' = Some []"
  then show "fetch_news_newsapi E (Some []) q l ps w = (Inl (ValueError missing_key_message), w)"
    by (auto simp: fetch_news_newsapi_def resolve_api_key_def liftE_def)
qed

theorem api_key_resolution_witness:
  "''secret'' \<noteq> [] \<and> ''from-env'' \<noteq> []
   \<and> getenv keyed_env ''NEWSAPI_KEY'' = Some ''from-env''
   \<and> getenv raising_env ''NEWSAPI_KEY'' = None
   \<and> fetch_news_newsapi keyed_env (Some ''secret'') ''top headlines'' ''en'' 20 world0
       = newsapi_request keyed_env ''secret'' ''top headlines'' ''en'' 20 world0
   \<and> net_log (snd (fetch_news_newsapi keyed_env (Some ''secret'') ''top headlines'' ''en'' 20 world0))
       = [HttpGet ''https://newsapi.org/v2/everything''
            [(''q'', PStr ''top headlines''), (''language'', PStr ''en''),
             (''sortBy'', PStr ''publishedAt''), (''pageSize'', PInt 20),
             (''apiKey'', PStr ''secret'')]]
   \<and> fetch_news_newsapi keyed_env (Some []) ''top headlines'' ''en'' 20 world0
       = newsapi_request keyed_env ''from-env'' ''top headlines'' ''en'' 20 world0
   \<and> fetch_news_newsapi raising_env (Some []) ''top headlines'' ''en'' 20 world0
       = (Inl (ValueError ''Set NEWSAPI_KEY env var or pass --newsapi-key''), world0)"
proof -
  have k1: "''secret'' \<noteq> []" by simp
  have k2: "''from-env'' \<noteq> []" by simp
  have g1: "getenv keyed_env ''NEWSAPI_KEY'' = Some ''from-env''" by (simp add: keyed_env_def)
  have g2: "getenv raising_env ''NEWSAPI_KEY'' = None" by (simp add: raising_env_def)
  have n: "net_log world0 = []" by (simp add: world0_def)
  note a = api_key_resolution [where k = "''secret''" and E = keyed_env and q = "''top headlines''"
            and l = "''en''" and ps = 20 and w = world0 and k' = "''from-env''"
            and g = "\<lambda>k. None"]
  note b = api_key_resolution [where k = "''secret''" and E = raising_env and q = "''top headlines''"
            and l = "''en''" and ps = 20 and w = world0 and k' = "''from-env''"
            and g = "\<lambda>k. None"]
  from a k1 have a1: "fetch_news_newsapi keyed_env (Some ''secret'') ''top headlines'' ''en'' 20 world0
       = newsapi_request keyed_env ''secret'' ''top headlines'' ''en'' 20 world0" by blast
  from a k1 have "net_log (snd (fetch_news_newsapi keyed_env (Some ''secret'') ''top headlines'' ''en'' 20 world0))
       = net_log world0 @ [HttpGet newsapi_url
            [(''q'', PStr ''top headlines''), (''language'', PStr ''en''),
             (''sortBy'', PStr ''publishedAt''), (''pageSize'', PInt 20),
             (''apiKey'', PStr ''secret'')]]" by blast
  then have a2: "net_log (snd (fetch_news_newsapi keyed_env (Some ''secret'') ''top headlines'' ''en'' 20 world0))
       = [HttpGet ''https://newsapi.org/v2/everything''
            [(''q'', PStr ''top headlines''), (''language'', PStr ''en''),
             (''sortBy'', PStr ''publishedAt''), (''pageSize'', PInt 20),
             (''apiKey'', PStr ''secret'')]]" by (simp only: n newsapi_url_def append_Nil)
  from a k2 g1 have a3: "fetch_news_newsapi keyed_env (Some []) ''top headlines'' ''en'' 20 world0
       = newsapi_request keyed_env ''from-env'' ''top headlines'' ''en'' 20 world0" by blast
  from b g2 have "fetch_news_newsapi raising_env (Some []) ''top headlines'' ''en'' 20 world0
       = (Inl (ValueError missing_key_message), world0)" by blast
  then have b1: "fetch_news_newsapi raising_env (Some []) ''top headlines'' ''en'' 20 world0
       = (Inl (ValueError ''Set NEWSAPI_KEY env var or pass --newsapi-key''), world0)"
    by (simp only: missing_key_message_def)
  show ?thesis by (intro conjI k1 k2 g1 g2 a1 a2 a3 b1)
qed

section \<open>What a successful run is made of\<close>

lemma bindS_Inr_E:
  assumes "bindS m f w = (Inr y, w')"
  obtains x w1 where "m w = (Inr x, w1)" and "f x w1 = (Inr y, w')"
proof -
  obtain r w1 where P: "m w = (r, w1)" by (cases "m w")
  show thesis
  proof (cases r)
    case (Inl e)
    with P assms show ?thesis by (simp add: bindS_def)
  next
    case (Inr x)
    with P assms have "f x w1 = (Inr y, w')" by (simp add: bindS_def)
    with P Inr that show ?thesis by simp
  qed
qed

lemma liftE_Inr: "liftE r w = (Inr x, w') \<Longrightarrow> r = Inr x \<and> w' = w"
  by (simp add: liftE_def)

lemma pureS_Inr: "pureS v w = (Inr x, w') \<Longrightarrow> x = v \<and> w' = w"
  by (simp add: pureS_def)

lemma comprehension_nth:
  assumes "comprehension f xs w = (Inr ys, w')"
  shows "length ys = length xs \<and> (\<forall>i<length xs. \<exists>u u'. f (xs ! i) u = (Inr (ys ! i), u'))"
  using assms
proof (induction xs arbitrary: ys w)
  case Nil
  then show ?case by simp
next
  case (Cons x xs)
  from Cons.prems obtain y ys' w1 where
    h: "f x w = (Inr y, w1)" and t: "comprehension f xs w1 = (Inr ys', w')" and r: "ys = y # ys'"
    by (rule comprehension_Inr_Cons)
  note IH = Cons.IH[OF t]
  have "\<exists>u u'. f ((x # xs) ! i) u = (Inr (ys ! i), u')" if i: "i < length (x # xs)" for i
  proof (cases i)
    case 0
    with h r show ?thesis by auto
  next
    case (Suc j)
    with i have "j < length xs" by simp
    with IH obtain u u' where "f (xs ! j) u = (Inr (ys' ! j), u')" by blast
    with Suc r show ?thesis by auto
  qed
  with IH r show ?case by simp
qed

lemma comprehension_all:
  assumes el: "\<And>x u y u'. f x u = (Inr y, u') \<Longrightarrow> P y"
    and run: "comprehension f xs w = (Inr ys, w')"
  shows "\<forall>y\<in>set ys. P y"
proof
  fix y assume "y \<in> set ys"
  then obtain i where i: "i < length ys" and y: "y = ys ! i" by (auto simp: in_set_conv_nth)
  from comprehension_nth[OF run] i obtain u u' where "f (xs ! i) u = (Inr (ys ! i), u')"
    by auto
  from el[OF this] y show "P y" by simp
qed

lemma rss_entry_Inr:
  assumes "rss_entry E e u = (Inr r, u')"
  shows "\<exists>s t l. entry_source e = Inr s \<and> map_of e ''title'' = Some t \<and> map_of e ''link'' = Some l
     \<and> r = [(''source'', s), (''title'', t),
            (''description'', dict_get_default e ''summary'' (PStr [])),
            (''url'', l), (''image'', PNone),
            (''published_at'', dict_get_default e ''published'' PNone),
            (''fetched_at'', PStr (clock E (now_calls u)))]
     \<and> now_calls u' = Suc (now_calls u)"
  using assms
  by (auto simp: rss_entry_def bindS_def liftE_def pureS_def attr_def utc_now_isoformat_def
      split: sum.splits option.splits)

lemma newsapi_article_Inr:
  assumes "newsapi_article E a u = (Inr r, u')"
  shows "\<exists>s t d l im p.
       bindE (subscript a ''source'') (\<lambda>s. subscript s ''name'') = Inr s
     \<and> subscript a ''title'' = Inr t \<and> subscript a ''description'' = Inr d
     \<and> subscript a ''url'' = Inr l \<and> subscript a ''urlToImage'' = Inr im
     \<and> subscript a ''publishedAt'' = Inr p
     \<and> r = [(''source'', s), (''title'', t), (''description'', d), (''url'', l), (''image'', im),
            (''published_at'', p), (''fetched_at'', PStr (clock E (now_calls u)))]
     \<and> now_calls u' = Suc (now_calls u)"
  using assms
  by (auto simp: newsapi_article_def bindS_def liftE_def pureS_def utc_now_isoformat_def
      split: sum.splits)

lemma normalise_record_Inr_pair:
  assumes "normalise_record E a u = (Inr r, u')"
  shows "fst (normalise_record E a u) = Inr r"
  using assms by simp

lemma newsapi_Inr_E:
  assumes "fetch_news_newsapi E api_key q l ps w = (Inr recs, w')"
  obtains items u where "comprehension (newsapi_article E) items u = (Inr recs, w')"
proof -
  from assms obtain k where "newsapi_request E k q l ps w = (Inr recs, w')"
    by (auto simp: fetch_news_newsapi_def liftE_def split: option.splits if_splits)
  then obtain resp w1 where
    b1: "bindS (liftE (raise_for_status resp)) (\<lambda>u.
           bindS (liftE (body_json resp)) (\<lambda>j.
           bindS (liftE (value_get_default j ''articles'' (PList []))) (\<lambda>articles.
           bindS (liftE (py_iter articles)) (\<lambda>items.
           comprehension (newsapi_article E) items)))) w1 = (Inr recs, w')"
    unfolding newsapi_request_def by (rule bindS_Inr_E)
  then obtain x2 w2 where
    b2: "bindS (liftE (body_json resp)) (\<lambda>j.
           bindS (liftE (value_get_default j ''articles'' (PList []))) (\<lambda>articles.
           bindS (liftE (py_iter articles)) (\<lambda>items.
           comprehension (newsapi_article E) items))) w2 = (Inr recs, w')"
    by (rule bindS_Inr_E)
  then obtain j w3 where
    b3: "bindS (liftE (value_get_default j ''articles'' (PList []))) (\<lambda>articles.
           bindS (liftE (py_iter articles)) (\<lambda>items.
           comprehension (newsapi_article E) items)) w3 = (Inr recs, w')"
    by (rule bindS_Inr_E)
  then obtain articles w4 where
    b4: "bindS (liftE (py_iter articles)) (\<lambda>items.
           comprehension (newsapi_article E) items) w4 = (Inr recs, w')"
    by (rule bindS_Inr_E)
  then obtain items w5 where "comprehension (newsapi_article E) items w5 = (Inr recs, w')"
    by (rule bindS_Inr_E)
  with that show thesis by blast
qed

lemma fallback_Inr_E:
  assumes "fallback_to_rss E q l c m w = (Inr raws, w')"
  obtains entries where "feedparser_parse E (rss_url E q l c) = Inr entries"
    and "comprehension (rss_entry E) (slice_to entries m)
           (w\<lparr>net_log := net_log w @ [FeedParse (rss_url E q l c)]\<rparr>) = (Inr raws, w')"
proof -
  from assms obtain entries w1 where
    f: "feed_parse E (rss_url E q l c) w = (Inr entries, w1)"
    and c: "comprehension (rss_entry E) (slice_to entries m) w1 = (Inr raws, w')"
    unfolding fallback_to_rss_def by (rule bindS_Inr_E)
  from f have "feedparser_parse E (rss_url E q l c) = Inr entries"
    and "w1 = w\<lparr>net_log := net_log w @ [FeedParse (rss_url E q l c)]\<rparr>"
    by (auto simp: feed_parse_def)
  with c that show thesis by blast
qed

lemma gnews_Inr_E:
  assumes "fetch_news_gnews E q l c p m ff s w = (Inr recs, w')"
  obtains raw u u' where "normalise E raw u = (Inr recs, u')"
proof -
  from assms obtain gn w1 where
    "bindS (if \<not> ff then gnews_try E l c p m q else pureS []) (\<lambda>raw0.
     bindS (if ff \<or> raw0 = [] then fallback_to_rss E q l c m else pureS raw0) (\<lambda>raw.
     bindS (normalise E raw) (\<lambda>normalised.
     bindS (pause E s) (\<lambda>u. pureS normalised)))) w1 = (Inr recs, w')"
    unfolding fetch_news_gnews_def by (rule bindS_Inr_E)
  then obtain raw0 w2 where
    "bindS (if ff \<or> raw0 = [] then fallback_to_rss E q l c m else pureS raw0) (\<lambda>raw.
     bindS (normalise E raw) (\<lambda>normalised.
     bindS (pause E s) (\<lambda>u. pureS normalised))) w2 = (Inr recs, w')"
    by (rule bindS_Inr_E)
  then obtain raw w3 where
    "bindS (normalise E raw) (\<lambda>normalised.
     bindS (pause E s) (\<lambda>u. pureS normalised)) w3 = (Inr recs, w')"
    by (rule bindS_Inr_E)
  then obtain normalised w4 where
    n: "normalise E raw w3 = (Inr normalised, w4)"
    and b: "bindS (pause E s) (\<lambda>u. pureS normalised) w4 = (Inr recs, w')"
    by (rule bindS_Inr_E)
  from b obtain x w5 where "pureS normalised w5 = (Inr recs, w')"
    by (rule bindS_Inr_E)
  then have "recs = normalised" by (simp add: pureS_def)
  with n that show thesis by blast
qed

lemma keys_newsapi_article:
  "newsapi_article E a u = (Inr r, u') \<Longrightarrow> map fst r = canonical_keys"
  by (drule newsapi_article_Inr) (auto simp: canonical_keys_def)

lemma keys_rss_entry:
  "rss_entry E e u = (Inr r, u') \<Longrightarrow> map fst r = canonical_keys"
  by (drule rss_entry_Inr) (auto simp: canonical_keys_def)

lemma keys_normalise_record:
  "normalise_record E a u = (Inr r, u') \<Longrightarrow> map fst r = canonical_keys"
  by (drule normalise_record_Inr_pair, drule normalise_record_Inr) (auto simp: canonical_keys_def)

lemma keys_newsapi:
  assumes "fst (fetch_news_newsapi E api_key q l ps w) = Inr recs"
  shows "\<forall>r\<in>set recs. map fst r = canonical_keys"
proof -
  obtain w' where "fetch_news_newsapi E api_key q l ps w = (Inr recs, w')"
    using assms by (cases "fetch_news_newsapi E api_key q l ps w") simp
  then obtain items u where c: "comprehension (newsapi_article E) items u = (Inr recs, w')"
    by (rule newsapi_Inr_E)
  show ?thesis by (rule comprehension_all[OF keys_newsapi_article c])
qed

lemma keys_fallback:
  assumes "fst (fallback_to_rss E q l c m w) = Inr recs"
  shows "\<forall>r\<in>set recs. map fst r = canonical_keys"
proof -
  obtain w' where "fallback_to_rss E q l c m w = (Inr recs, w')"
    using assms by (cases "fallback_to_rss E q l c m w") simp
  then obtain entries where
    c: "comprehension (rss_entry E) (slice_to entries m)
           (w\<lparr>net_log := net_log w @ [FeedParse (rss_url E q l c)]\<rparr>) = (Inr recs, w')"
    by (rule fallback_Inr_E)
  show ?thesis by (rule comprehension_all[OF keys_rss_entry c])
qed

lemma keys_gnews:
  assumes "fst (fetch_news_gnews E q l c p m ff s w) = Inr recs"
  shows "\<forall>r\<in>set recs. map fst r = canonical_keys"
proof -
  obtain w' where "fetch_news_gnews E q l c p m ff s w = (Inr recs, w')"
    using assms by (cases "fetch_news_gnews E q l c p m ff s w") simp
  then obtain raw u u' where "normalise E raw u = (Inr recs, u')"
    by (rule gnews_Inr_E)
  then have c: "comprehension (normalise_record E) raw u = (Inr recs, u')"
    by (simp add: normalise_def)
  show ?thesis by (rule comprehension_all[OF keys_normalise_record c])
qed

section \<open>Sample runs\<close>

lemmas feed_defs = fetch_news_gnews_def gnews_client_def gnews_try_def fallback_to_rss_def
  feed_parse_def rss_entry_def entry_source_def attr_def slice_to_def pause_def
  sample_gnews_init_def sample_clock_def entry_with_source_def entry_without_source_def
  library_record_def world0_def

lemmas keyed_defs = fetch_news_newsapi_def resolve_api_key_def newsapi_request_def
  newsapi_article_def http_get_def raise_for_status_def bindE_def newsapi_url_def
  missing_key_message_def keyed_env_def sample_article_def sample_clock_def world0_def

lemma keyed_run:
  "fst (fetch_news_newsapi keyed_env None ''top headlines'' ''en'' 20 world0) =
     Inr [[(''source'', PStr ''Herald''), (''title'', PStr ''Eta''), (''description'', PNone),
           (''url'', PStr ''http://g.example/7''), (''image'', PNone),
           (''published_at'', PStr ''2024-05-01T08:00:00Z''),
           (''fetched_at'', PStr ''2024-05-01T12:00:00+00:00'')]]"
  by (simp add: keyed_defs run_defs)

lemma feed_run:
  "fst (fallback_to_rss raising_env ''World'' ''en'' ''US'' 10 world0) =
     Inr [[(''source'', PStr ''Wire''), (''title'', PStr ''Alpha''),
           (''description'', PStr ''first''), (''url'', PStr ''http://a.example/1''),
           (''image'', PNone), (''published_at'', PStr ''Wed, 01 May 2024 10:00:00 GMT''),
           (''fetched_at'', PStr ''2024-05-01T12:00:00+00:00'')],
          [(''source'', PStr []), (''title'', PStr ''Beta''), (''description'', PStr []),
           (''url'', PStr ''http://b.example/2''), (''image'', PNone), (''published_at'', PNone),
           (''fetched_at'', PStr ''2024-05-01T12:00:01+00:00'')]]"
  by (simp add: feed_defs run_defs raising_env_def)

lemma raising_run:
  "fst (fetch_news_gnews raising_env ''World'' ''en'' ''US'' ''7d'' 10 False (Finite 0) world0) =
     Inr [[(''source'', PStr ''Wire''), (''title'', PStr ''Alpha''),
           (''description'', PStr ''first''), (''url'', PStr ''http://a.example/1''),
           (''image'', PNone), (''published_at'', PStr ''Wed, 01 May 2024 10:00:00 GMT''),
           (''fetched_at'', PStr ''2024-05-01T12:00:00+00:00'')],
          [(''source'', PNone), (''title'', PStr ''Beta''), (''description'', PStr []),
           (''url'', PStr ''http://b.example/2''), (''image'', PNone), (''published_at'', PNone),
           (''fetched_at'', PStr ''2024-05-01T12:00:01+00:00'')]]"
  by (simp add: feed_defs run_defs raising_env_def)

lemma library_run:
  "fst (fetch_news_gnews library_env ''World'' ''en'' ''US'' ''7d'' 10 False (Finite 0) world0) =
     Inr [[(''source'', PDict [(''href'', PStr ''http://c.example''), (''title'', PStr ''Daily'')]),
           (''title'', PStr ''Gamma''), (''description'', PStr ''third''),
           (''url'', PStr ''http://c.example/3''), (''image'', PNone),
           (''published_at'', PStr ''Wed, 01 May 2024 09:00:00 GMT''),
           (''fetched_at'', PStr ''2024-05-01T12:00:00+00:00'')]]"
  by (simp add: feed_defs run_defs library_env_def)

section \<open>The key set\<close>

text \<open>
  Claim C8. Every record of the list that an adapter returns, whether
  \<^verbatim>\<open>fetch_news_newsapi\<close>, \<^verbatim>\<open>_fallback_to_rss\<close> or \<^verbatim>\<open>fetch_news_gnews\<close> (on either of its
  paths), has exactly the keys \<^verbatim>\<open>source\<close>, \<^verbatim>\<open>title\<close>, \<^verbatim>\<open>description\<close>, \<^verbatim>\<open>url\<close>,
  \<^verbatim>\<open>image\<close>, \<^verbatim>\<open>published_at\<close> and \<^verbatim>\<open>fetched_at\<close>, each once and in this order.
\<close>

theorem same_key_set:
  "(fst (fetch_news_newsapi E api_key query language page_size w) = Inr keyed
      \<longrightarrow> (\<forall>r\<in>set keyed. map fst r = canonical_keys))
   \<and> (fst (fallback_to_rss E query language country max_results w) = Inr feed
      \<longrightarrow> (\<forall>r\<in>set feed. map fst r = canonical_keys))
   \<and> (fst (fetch_news_gnews E query language country period max_results force_fallback sleep_sec w)
        = Inr keyless
      \<longrightarrow> (\<forall>r\<in>set keyless. map fst r = canonical_keys))"
proof (intro conjI impI)
  assume "fst (fetch_news_newsapi E api_key query language page_size w) = Inr keyed"
  then show "\<forall>r\<in>set keyed. map fst r = canonical_keys" by (rule keys_newsapi)
next
  assume "fst (fallback_to_rss E query language country max_results w) = Inr feed"
  then show "\<forall>r\<in>set feed. map fst r = canonical_keys" by (rule keys_fallback)
next
  assume "fst (fetch_news_gnews E query language country period max_results force_fallback
            sleep_sec w) = Inr keyless"
  then show "\<forall>r\<in>set keyless. map fst r = canonical_keys" by (rule keys_gnews)
qed

theorem same_key_set_witness:
  "fst (fetch_news_newsapi keyed_env None ''top headlines'' ''en'' 20 world0) =
     Inr [[(''source'', PStr ''Herald''), (''title'', PStr ''Eta''), (''description'', PNone),
           (''url'', PStr ''http://g.example/7''), (''image'', PNone),
           (''published_at'', PStr ''2024-05-01T08:00:00Z''),
           (''fetched_at'', PStr ''2024-05-01T12:00:00+00:00'')]]
   \<and> map fst [(''source'', PStr ''Herald''), (''title'', PStr ''Eta''), (''description'', PNone),
           (''url'', PStr ''http://g.example/7''), (''image'', PNone),
           (''published_at'', PStr ''2024-05-01T08:00:00Z''),
           (''fetched_at'', PStr ''2024-05-01T12:00:00+00:00'')] = canonical_keys
   \<and> fst (fallback_to_rss raising_env ''World'' ''en'' ''US'' 10 world0) =
     Inr [[(''source'', PStr ''Wire''), (''title'', PStr ''Alpha''),
           (''description'', PStr ''first''), (''url'', PStr ''http://a.example/1''),
           (''image'', PNone), (''published_at'', PStr ''Wed, 01 May 2024 10:00:00 GMT''),
           (''fetched_at'', PStr ''2024-05-01T12:00:00+00:00'')],
          [(''source'', PStr []), (''title'', PStr ''Beta''), (''description'', PStr []),
           (''url'', PStr ''http://b.example/2''), (''image'', PNone), (''published_at'', PNone),
           (''fetched_at'', PStr ''2024-05-01T12:00:01+00:00'')]]
   \<and> map fst [(''source'', PStr []), (''title'', PStr ''Beta''), (''description'', PStr []),
           (''url'', PStr ''http://b.example/2''), (''image'', PNone), (''published_at'', PNone),
           (''fetched_at'', PStr ''2024-05-01T12:00:01+00:00'')] = canonical_keys
   \<and> fst (fetch_news_gnews library_env ''World'' ''en'' ''US'' ''7d'' 10 False (Finite 0) world0) =
     Inr [[(''source'', PDict [(''href'', PStr ''http://c.example''), (''title'', PStr ''Daily'')]),
           (''title'', PStr ''Gamma''), (''description'', PStr ''third''),
           (''url'', PStr ''http://c.example/3''), (''image'', PNone),
           (''published_at'', PStr ''Wed, 01 May 2024 09:00:00 GMT''),
           (''fetched_at'', PStr ''2024-05-01T12:00:00+00:00'')]]
   \<and> map fst [(''source'', PDict [(''href'', PStr ''http://c.example''), (''title'', PStr ''Daily'')]),
           (''title'', PStr ''Gamma''), (''description'', PStr ''third''),
           (''url'', PStr ''http://c.example/3''), (''image'', PNone),
           (''published_at'', PStr ''Wed, 01 May 2024 09:00:00 GMT''),
           (''fetched_at'', PStr ''2024-05-01T12:00:00+00:00'')] = canonical_keys"
proof -
  note k = same_key_set [where E = keyed_env and api_key = None and query = "''top headlines''"
      and language = "''en''" and page_size = 20 and w = world0,
      THEN conjunct1, rule_format, OF keyed_run]
  note f = same_key_set [where E = raising_env and query = "''World''" and language = "''en''"
      and country = "''US''" and max_results = 10 and w = world0,
      THEN conjunct2, THEN conjunct1, rule_format, OF feed_run]
  note g = same_key_set [where E = library_env and query = "''World''" and language = "''en''"
      and country = "''US''" and period = "''7d''" and max_results = 10
      and force_fallback = False and sleep_sec = "Finite 0" and w = world0,
      THEN conjunct2, THEN conjunct2, rule_format, OF library_run]
  have k1: "map fst [(''source'', PStr ''Herald''), (''title'', PStr ''Eta''), (''description'', PNone),
           (''url'', PStr ''http://g.example/7''), (''image'', PNone),
           (''published_at'', PStr ''2024-05-01T08:00:00Z''),
           (''fetched_at'', PStr ''2024-05-01T12:00:00+00:00'')] = canonical_keys"
    by (rule k) simp
  have f1: "map fst [(''source'', PStr []), (''title'', PStr ''Beta''), (''description'', PStr []),
           (''url'', PStr ''http://b.example/2''), (''image'', PNone), (''published_at'', PNone),
           (''fetched_at'', PStr ''2024-05-01T12:00:01+00:00'')] = canonical_keys"
    by (rule f) simp
  have g1: "map fst [(''source'', PDict [(''href'', PStr ''http://c.example''), (''title'', PStr ''Daily'')]),
           (''title'', PStr ''Gamma''), (''description'', PStr ''third''),
           (''url'', PStr ''http://c.example/3''), (''image'', PNone),
           (''published_at'', PStr ''Wed, 01 May 2024 09:00:00 GMT''),
           (''fetched_at'', PStr ''2024-05-01T12:00:00+00:00'')] = canonical_keys"
    by (rule g) simp
  show ?thesis by (intro conjI keyed_run k1 feed_run f1 library_run g1)
qed

section \<open>The source of a record of the feed\<close>

lemma case_then_pause_Inr:
  assumes "(case r of
              Inl e \<Rightarrow> Inl e
            | Inr recs \<Rightarrow> (case p of Inl e \<Rightarrow> Inl e | Inr u \<Rightarrow> Inr recs)) = Inr x"
  shows "r = Inr x"
  using assms by (cases r; cases p) simp_all

lemma gnews_init_ok:
  assumes "fst (fetch_news_gnews E q l c p m ff s w) = Inr recs"
  shows "gnews_init E l c p m = Inr ()"
proof (cases "gnews_init E l c p m")
  case (Inl e)
  from client_fails[OF Inl, of q ff s w] assms show ?thesis by simp
next
  case (Inr u)
  then show ?thesis by simp
qed






section \<open>Title and link\<close>


















section \<open>The order of the stamps\<close>

lemma fetch_unforced_library:
  assumes init: "gnews_init E language country period max_results = Inr ()"
    and lib: "gnews_get_news E language country period max_results query = Inr (Some raw)"
    and ne: "raw \<noteq> []"
  shows "fst (fetch_news_gnews E query language country period max_results False sleep_sec w)
       = (case fst (normalise E raw w) of
            Inl e \<Rightarrow> Inl e
          | Inr recs \<Rightarrow> (case fst (pause E sleep_sec w) of Inl e \<Rightarrow> Inl e | Inr u \<Rightarrow> Inr recs))"
proof -
  let ?K = "\<lambda>n. bindS (pause E sleep_sec) (\<lambda>u. pureS n)"
  obtain w1 where g: "gnews_try E language country period max_results query w = (Inr raw, w1)"
    and n: "now_calls w1 = now_calls w"
    using lib by (simp add: gnews_try_def Let_def)
  have a: "bindS (gnews_try E language country period max_results query) G w = G raw w1"
    for G :: "dict list \<Rightarrow> dict list action"
    using g by (simp add: bindS_def)
  have b: "bindS (pureS raw) G = G raw" for G :: "dict list \<Rightarrow> dict list action"
    by (rule ext) (simp add: bindS_def pureS_def)
  have "fetch_news_gnews E query language country period max_results False sleep_sec w
      = bindS (normalise E raw) ?K w1"
    using ne by (simp add: fetch_news_gnews_def client_ok[OF init] a b)
  then have "fst (fetch_news_gnews E query language country period max_results False sleep_sec w)
      = fst (bindS (normalise E raw) ?K w1)" by (rule arg_cong)
  also have "\<dots> = (case fst (normalise E raw w1) of
            Inl e \<Rightarrow> Inl e
          | Inr recs \<Rightarrow> (case fst (pause E sleep_sec w1) of Inl e \<Rightarrow> Inl e | Inr u \<Rightarrow> Inr recs))"
    by (rule fst_then_pause)
  also have "fst (normalise E raw w1) = fst (normalise E raw w)"
    by (rule clock_onlyD(1)[OF clock_only_normalise n])
  also have "fst (pause E sleep_sec w1) = fst (pause E sleep_sec w)" by (rule fst_pause)
  finally show ?thesis .
qed

lemma rss_comprehension_stamps:
  assumes "comprehension (rss_entry E) es w = (Inr raws, w')"
  shows "length raws = length es \<and>
         (\<forall>i<length es. dict_get (raws ! i) ''fetched_at'' = PStr (clock E (now_calls w + i)))"
  using assms
proof (induction es arbitrary: raws w)
  case Nil
  then show ?case by simp
next
  case (Cons e es)
  from Cons.prems obtain y ys' w1 where
    h: "rss_entry E e w = (Inr y, w1)" and
    t: "comprehension (rss_entry E) es w1 = (Inr ys', w')" and
    r: "raws = y # ys'"
    by (rule comprehension_Inr_Cons)
  note IH = Cons.IH[OF t]
  from rss_entry_Inr[OF h] have
    y: "dict_get y ''fetched_at'' = PStr (clock E (now_calls w))" and
    c: "now_calls w1 = Suc (now_calls w)"
    by (auto simp: dict_get_def)
  have "dict_get (raws ! i) ''fetched_at'' = PStr (clock E (now_calls w + i))"
    if i: "i < length (e # es)" for i
  proof (cases i)
    case 0
    with y r show ?thesis by simp
  next
    case (Suc j)
    with i have "j < length es" by simp
    with IH have "dict_get (ys' ! j) ''fetched_at'' = PStr (clock E (now_calls w1 + j))" by blast
    with Suc r c show ?thesis by simp
  qed
  with IH r show ?case by simp
qed

lemma normalise_fetched_at_nth:
  assumes n: "fst (normalise E raw w) = Inr recs" and i: "i < length raw"
  shows "field ''fetched_at'' (recs ! i) =
       (if truthy (dict_get (raw ! i) ''fetched_at'') then dict_get (raw ! i) ''fetched_at''
        else PStr (clock E (now_calls w + unstamped (take i raw))))"
proof -
  have "field ''fetched_at'' (recs ! i) =
       (if truthy (dict_get (raw ! i) ''fetched_at'') then dict_get (raw ! i) ''fetched_at''
        else PStr (clock E (now_calls (w\<lparr>now_calls := now_calls w + unstamped (take i raw)\<rparr>))))"
    by (rule normalise_record_fetched_at[OF normalise_at[OF n i]])
  then show ?thesis by simp
qed

lemma normalise_length:
  assumes "fst (normalise E raw w) = Inr recs"
  shows "length recs = length raw"
proof -
  obtain w' where "normalise E raw w = (Inr recs, w')"
    using assms by (cases "normalise E raw w") simp
  from normalise_nth[OF this] show ?thesis by blast
qed

lemma unstamped_none:
  assumes "\<forall>a\<in>set raw. \<not> truthy (dict_get a ''fetched_at'')" and "i \<le> length raw"
  shows "unstamped (take i raw) = i"
proof -
  have "\<forall>a\<in>set (take i raw). \<not> truthy (dict_get a ''fetched_at'')"
    using assms(1) by (auto dest: in_set_takeD)
  then have "filter (\<lambda>a. \<not> truthy (dict_get a ''fetched_at'')) (take i raw) = take i raw"
    by (simp add: filter_id_conv)
  with assms(2) show ?thesis by (simp add: unstamped_def)
qed

lemma feed_path_stamps:
  assumes F: "fst (bindS (fallback_to_rss E q l c m) (normalise E) w) = Inr recs"
    and ne: "\<forall>n. clock E n \<noteq> []"
  shows "\<forall>i<length recs. field ''fetched_at'' (recs ! i) = PStr (clock E (now_calls w + i))"
proof -
  obtain w3 where "bindS (fallback_to_rss E q l c m) (normalise E) w = (Inr recs, w3)"
    using F by (cases "bindS (fallback_to_rss E q l c m) (normalise E) w") simp
  then obtain raws w2 where
    fb: "fallback_to_rss E q l c m w = (Inr raws, w2)" and
    nm: "normalise E raws w2 = (Inr recs, w3)"
    by (rule bindS_Inr_E)
  from fb obtain entries where
    c1: "comprehension (rss_entry E) (slice_to entries m)
           (w\<lparr>net_log := net_log w @ [FeedParse (rss_url E q l c)]\<rparr>) = (Inr raws, w2)"
    by (rule fallback_Inr_E)
  from rss_comprehension_stamps[OF c1] have
    len1: "length raws = length (slice_to entries m)" and
    st: "\<forall>i<length raws. dict_get (raws ! i) ''fetched_at'' = PStr (clock E (now_calls w + i))"
    by simp_all
  from nm have n: "fst (normalise E raws w2) = Inr recs" by simp
  have len2: "length recs = length raws" by (rule normalise_length[OF n])
  show ?thesis
  proof (intro allI impI)
    fix i assume "i < length recs"
    with len2 have i: "i < length raws" by simp
    from st i have s: "dict_get (raws ! i) ''fetched_at'' = PStr (clock E (now_calls w + i))"
      by blast
    with ne have "truthy (dict_get (raws ! i) ''fetched_at'')" by simp
    with normalise_fetched_at_nth[OF n i] s
    show "field ''fetched_at'' (recs ! i) = PStr (clock E (now_calls w + i))" by simp
  qed
qed

lemma library_path_stamps:
  assumes n: "fst (normalise E raw w) = Inr recs"
    and fresh: "\<forall>a\<in>set raw. \<not> truthy (dict_get a ''fetched_at'')"
  shows "\<forall>i<length recs. field ''fetched_at'' (recs ! i) = PStr (clock E (now_calls w + i))"
proof (intro allI impI)
  fix i assume "i < length recs"
  with normalise_length[OF n] have i: "i < length raw" by simp
  then have "raw ! i \<in> set raw" by simp
  with fresh have f: "\<not> truthy (dict_get (raw ! i) ''fetched_at'')" by blast
  from i have "unstamped (take i raw) = i" by (intro unstamped_none[OF fresh]) simp
  with normalise_fetched_at_nth[OF n i] f
  show "field ''fetched_at'' (recs ! i) = PStr (clock E (now_calls w + i))" by simp
qed

lemma readings_non_decreasing:
  assumes st: "\<forall>i<length recs. field ''fetched_at'' (recs ! i) = PStr (clock E (n + i))"
    and mono: "\<forall>a b. a \<le> b \<longrightarrow> clock E a \<le> clock E b"
  shows "non_decreasing (map (field ''fetched_at'') recs)"
  unfolding non_decreasing_def sorted_wrt_iff_nth_less
proof (intro allI impI)
  fix i j assume ij: "i < j" and j: "j < length (map (field ''fetched_at'') recs)"
  then have j': "j < length recs" and i': "i < length recs" by simp_all
  from st i' have a: "field ''fetched_at'' (recs ! i) = PStr (clock E (n + i))" by blast
  from st j' have b: "field ''fetched_at'' (recs ! j) = PStr (clock E (n + j))" by blast
  from ij have "n + i \<le> n + j" by simp
  with mono have "clock E (n + i) \<le> clock E (n + j)" by blast
  with a b i' j' show "py_le (map (field ''fetched_at'') recs ! i) (map (field ''fetched_at'') recs ! j)"
    by simp
qed

lemma stamps_are_readings:
  assumes res: "fst (fetch_news_gnews E query language country period max_results force_fallback
                  sleep_sec w) = Inr recs"
    and fresh: "force_fallback \<or>
         (\<forall>raw. gnews_get_news E language country period max_results query = Inr (Some raw)
            \<longrightarrow> (\<forall>a\<in>set raw. \<not> truthy (dict_get a ''fetched_at'')))"
    and ne: "\<forall>n. clock E n \<noteq> []"
  shows "\<forall>i<length recs. field ''fetched_at'' (recs ! i) = PStr (clock E (now_calls w + i))"
proof -
  let ?F = "bindS (fallback_to_rss E query language country max_results) (normalise E)"
  have init: "gnews_init E language country period max_results = Inr ()"
    by (rule gnews_init_ok[OF res])
  show ?thesis
  proof (cases force_fallback)
    case True
    have "fst (fetch_news_gnews E query language country period max_results True sleep_sec w)
       = (case fst (?F w) of
            Inl e \<Rightarrow> Inl e
          | Inr recs \<Rightarrow> (case fst (pause E sleep_sec w) of Inl e \<Rightarrow> Inl e | Inr u \<Rightarrow> Inr recs))"
      by (rule fetch_forced[OF init])
    with res True have "(case fst (?F w) of
            Inl e \<Rightarrow> Inl e
          | Inr recs \<Rightarrow> (case fst (pause E sleep_sec w) of Inl e \<Rightarrow> Inl e | Inr u \<Rightarrow> Inr recs))
        = Inr recs" by simp
    then have "fst (?F w) = Inr recs" by (rule case_then_pause_Inr)
    then show ?thesis by (rule feed_path_stamps[OF _ ne])
  next
    case False
    show ?thesis
    proof (cases "\<exists>raw. gnews_get_news E language country period max_results query = Inr (Some raw)
                     \<and> raw \<noteq> []")
      case True
      then obtain raw where
        lib: "gnews_get_news E language country period max_results query = Inr (Some raw)"
        and nonempty: "raw \<noteq> []" by blast
      from fresh False lib have fr: "\<forall>a\<in>set raw. \<not> truthy (dict_get a ''fetched_at'')" by blast
      have "fst (fetch_news_gnews E query language country period max_results False sleep_sec w)
       = (case fst (normalise E raw w) of
            Inl e \<Rightarrow> Inl e
          | Inr recs \<Rightarrow> (case fst (pause E sleep_sec w) of Inl e \<Rightarrow> Inl e | Inr u \<Rightarrow> Inr recs))"
        by (rule fetch_unforced_library[OF init lib nonempty])
      with res False have "(case fst (normalise E raw w) of
            Inl e \<Rightarrow> Inl e
          | Inr recs \<Rightarrow> (case fst (pause E sleep_sec w) of Inl e \<Rightarrow> Inl e | Inr u \<Rightarrow> Inr recs))
        = Inr recs" by simp
      then have "fst (normalise E raw w) = Inr recs" by (rule case_then_pause_Inr)
      then show ?thesis by (rule library_path_stamps[OF _ fr])
    next
      case nolib: False
      have lib': "(\<exists>exc. gnews_get_news E language country period max_results query = Inl exc)
         \<or> gnews_get_news E language country period max_results query = Inr None
         \<or> gnews_get_news E language country period max_results query = Inr (Some [])"
      proof (cases "gnews_get_news E language country period max_results query")
        case (Inl e)
        then show ?thesis by blast
      next
        case (Inr answer)
        with nolib show ?thesis by (cases answer) auto
      qed
      have "fst (fetch_news_gnews E query language country period max_results False sleep_sec w)
       = (case fst (?F w) of
            Inl e \<Rightarrow> Inl e
          | Inr recs \<Rightarrow> (case fst (pause E sleep_sec w) of Inl e \<Rightarrow> Inl e | Inr u \<Rightarrow> Inr recs))"
        by (rule fetch_unforced_empty[OF init lib'])
      with res False have "(case fst (?F w) of
            Inl e \<Rightarrow> Inl e
          | Inr recs \<Rightarrow> (case fst (pause E sleep_sec w) of Inl e \<Rightarrow> Inl e | Inr u \<Rightarrow> Inr recs))
        = Inr recs" by simp
      then have "fst (?F w) = Inr recs" by (rule case_then_pause_Inr)
      then show ?thesis by (rule feed_path_stamps[OF _ ne])
    qed
  qed
qed

lemma sample_clock_mono: "\<forall>a b. a \<le> b \<longrightarrow> sample_clock a \<le> sample_clock b"
  by (simp add: sample_clock_def)

lemma sample_clock_ne: "\<forall>n. sample_clock n \<noteq> []"
  by (simp add: sample_clock_def)

lemma fresh_run:
  "fst (fetch_news_gnews fresh_env ''World'' ''en'' ''US'' ''7d'' 10 False (Finite 0) world0) =
     Inr [[(''source'', PDict [(''href'', PStr ''http://c.example''), (''title'', PStr ''Daily'')]),
           (''title'', PStr ''Gamma''), (''description'', PStr ''third''),
           (''url'', PStr ''http://c.example/3''), (''image'', PNone),
           (''published_at'', PStr ''Wed, 01 May 2024 09:00:00 GMT''),
           (''fetched_at'', PStr ''2024-05-01T12:00:00+00:00'')],
          [(''source'', PDict [(''href'', PStr ''http://k.example''), (''title'', PStr ''Post'')]),
           (''title'', PStr ''Iota''), (''description'', PStr ''fourth''),
           (''url'', PStr ''http://k.example/11''), (''image'', PNone),
           (''published_at'', PStr ''Wed, 01 May 2024 09:30:00 GMT''),
           (''fetched_at'', PStr ''2024-05-01T12:00:01+00:00'')]]"
  by (simp add: feed_defs run_defs fresh_env_def second_library_record_def)

text \<open>
  Claim C9, as amended. Within one call of \<^verbatim>\<open>fetch_news_gnews\<close>, every record that is
  stamped during the call gets a reading of the clock of its own, taken when the record is
  built: the stamps of one call are successive readings, not one shared instant. When the
  feed fallback supplies the records (the fallback is forced, or the library raises or
  returns nothing), or when the library's records carry no truthy \<^verbatim>\<open>fetched_at\<close> of their
  own, the \<open>i\<close>-th record returned carries the \<open>i\<close>-th reading of the clock taken during
  the call (a reading is never the empty string), so that the \<^verbatim>\<open>fetched_at\<close> values are
  non-decreasing in list order whenever the readings of the clock, as strings, do not
  decrease. A \<^verbatim>\<open>fetched_at\<close> that the library supplies is kept wherever it falls, and the
  code does not order such values.
\<close>

theorem fetched_at_successive_readings:
  assumes res: "fst (fetch_news_gnews E query language country period max_results force_fallback
                  sleep_sec w) = Inr recs"
    and fresh: "force_fallback \<or>
         (\<forall>raw. gnews_get_news E language country period max_results query = Inr (Some raw)
            \<longrightarrow> (\<forall>a\<in>set raw. \<not> truthy (dict_get a ''fetched_at'')))"
    and ne: "\<forall>n. clock E n \<noteq> []"
  shows "(\<forall>i<length recs. field ''fetched_at'' (recs ! i) = PStr (clock E (now_calls w + i)))
       \<and> ((\<forall>a b. a \<le> b \<longrightarrow> clock E a \<le> clock E b)
            \<longrightarrow> non_decreasing (map (field ''fetched_at'') recs))"
proof -
  have st: "\<forall>i<length recs. field ''fetched_at'' (recs ! i) = PStr (clock E (now_calls w + i))"
    by (rule stamps_are_readings[OF res fresh ne])
  have "non_decreasing (map (field ''fetched_at'') recs)"
    if "\<forall>a b. a \<le> b \<longrightarrow> clock E a \<le> clock E b"
    by (rule readings_non_decreasing[OF st that])
  with st show ?thesis by blast
qed

theorem fetched_at_successive_readings_witness:
  "fst (fetch_news_gnews raising_env ''World'' ''en'' ''US'' ''7d'' 10 False (Finite 0) world0) =
     Inr [[(''source'', PStr ''Wire''), (''title'', PStr ''Alpha''),
           (''description'', PStr ''first''), (''url'', PStr ''http://a.example/1''),
           (''image'', PNone), (''published_at'', PStr ''Wed, 01 May 2024 10:00:00 GMT''),
           (''fetched_at'', PStr ''2024-05-01T12:00:00+00:00'')],
          [(''source'', PNone), (''title'', PStr ''Beta''), (''description'', PStr []),
           (''url'', PStr ''http://b.example/2''), (''image'', PNone), (''published_at'', PNone),
           (''fetched_at'', PStr ''2024-05-01T12:00:01+00:00'')]]
   \<and> non_decreasing (map (field ''fetched_at'')
       [[(''source'', PStr ''Wire''), (''title'', PStr ''Alpha''),
           (''description'', PStr ''first''), (''url'', PStr ''http://a.example/1''),
           (''image'', PNone), (''published_at'', PStr ''Wed, 01 May 2024 10:00:00 GMT''),
           (''fetched_at'', PStr ''2024-05-01T12:00:00+00:00'')],
          [(''source'', PNone), (''title'', PStr ''Beta''), (''description'', PStr []),
           (''url'', PStr ''http://b.example/2''), (''image'', PNone), (''published_at'', PNone),
           (''fetched_at'', PStr ''2024-05-01T12:00:01+00:00'')]])
   \<and> gnews_get_news fresh_env ''en'' ''US'' ''7d'' 10 ''World''
       = Inr (Some [library_record, second_library_record])
   \<and> \<not> truthy (dict_get library_record ''fetched_at'')
   \<and> \<not> truthy (dict_get second_library_record ''fetched_at'')
   \<and> fst (fetch_news_gnews fresh_env ''World'' ''en'' ''US'' ''7d'' 10 False (Finite 0) world0) =
     Inr [[(''source'', PDict [(''href'', PStr ''http://c.example''), (''title'', PStr ''Daily'')]),
           (''title'', PStr ''Gamma''), (''description'', PStr ''third''),
           (''url'', PStr ''http://c.example/3''), (''image'', PNone),
           (''published_at'', PStr ''Wed, 01 May 2024 09:00:00 GMT''),
           (''fetched_at'', PStr ''2024-05-01T12:00:00+00:00'')],
          [(''source'', PDict [(''href'', PStr ''http://k.example''), (''title'', PStr ''Post'')]),
           (''title'', PStr ''Iota''), (''description'', PStr ''fourth''),
           (''url'', PStr ''http://k.example/11''), (''image'', PNone),
           (''published_at'', PStr ''Wed, 01 May 2024 09:30:00 GMT''),
           (''fetched_at'', PStr ''2024-05-01T12:00:01+00:00'')]]
   \<and> non_decreasing (map (field ''fetched_at'')
       [[(''source'', PDict [(''href'', PStr ''http://c.example''), (''title'', PStr ''Daily'')]),
           (''title'', PStr ''Gamma''), (''description'', PStr ''third''),
           (''url'', PStr ''http://c.example/3''), (''image'', PNone),
           (''published_at'', PStr ''Wed, 01 May 2024 09:00:00 GMT''),
           (''fetched_at'', PStr ''2024-05-01T12:00:00+00:00'')],
          [(''source'', PDict [(''href'', PStr ''http://k.example''), (''title'', PStr ''Post'')]),
           (''title'', PStr ''Iota''), (''description'', PStr ''fourth''),
           (''url'', PStr ''http://k.example/11''), (''image'', PNone),
           (''published_at'', PStr ''Wed, 01 May 2024 09:30:00 GMT''),
           (''fetched_at'', PStr ''2024-05-01T12:00:01+00:00'')]])"
proof -
  have c1: "clock raising_env = sample_clock" by (simp add: raising_env_def)
  have c2: "clock fresh_env = sample_clock" by (simp add: fresh_env_def)
  have h1: "False \<or>
         (\<forall>raw. gnews_get_news raising_env ''en'' ''US'' ''7d'' 10 ''World'' = Inr (Some raw)
            \<longrightarrow> (\<forall>a\<in>set raw. \<not> truthy (dict_get a ''fetched_at'')))"
    by (simp add: raising_env_def)
  have l2: "gnews_get_news fresh_env ''en'' ''US'' ''7d'' 10 ''World''
       = Inr (Some [library_record, second_library_record])"
    by (simp add: fresh_env_def)
  have u1: "\<not> truthy (dict_get library_record ''fetched_at'')"
    by (simp add: library_record_def dict_get_def)
  have u2: "\<not> truthy (dict_get second_library_record ''fetched_at'')"
    by (simp add: second_library_record_def dict_get_def)
  have h2: "False \<or>
         (\<forall>raw. gnews_get_news fresh_env ''en'' ''US'' ''7d'' 10 ''World'' = Inr (Some raw)
            \<longrightarrow> (\<forall>a\<in>set raw. \<not> truthy (dict_get a ''fetched_at'')))"
    using u1 u2 by (simp add: l2)
  have n1: "\<forall>n. clock raising_env n \<noteq> []" unfolding c1 by (rule sample_clock_ne)
  have n2: "\<forall>n. clock fresh_env n \<noteq> []" unfolding c2 by (rule sample_clock_ne)
  have m1: "\<forall>a b. a \<le> b \<longrightarrow> clock raising_env a \<le> clock raising_env b"
    unfolding c1 by (rule sample_clock_mono)
  have m2: "\<forall>a b. a \<le> b \<longrightarrow> clock fresh_env a \<le> clock fresh_env b"
    unfolding c2 by (rule sample_clock_mono)
  note a = fetched_at_successive_readings [OF raising_run h1 n1, THEN conjunct2, THEN mp, OF m1]
  note b = fetched_at_successive_readings [OF fresh_run h2 n2, THEN conjunct2, THEN mp, OF m2]
  show ?thesis by (intro conjI raising_run a l2 u1 u2 fresh_run b)
qed

text \<open>
  The claim as written fails when the library supplies a \<^verbatim>\<open>fetched_at\<close> of its own: with
  three records of which the last is stamped the day before, the first two get two different
  readings of the clock, not one instant, and the third keeps its earlier stamp, so that the
  values decrease.
\<close>

theorem fetched_at_not_ordered_counterexample:
  "map (field ''fetched_at'')
     (case fst (fetch_news_gnews stale_env ''World'' ''en'' ''US'' ''7d'' 10 False (Finite 0) world0) of
        Inl e \<Rightarrow> [] | Inr recs \<Rightarrow> recs)
     = [PStr ''2024-05-01T12:00:00+00:00'', PStr ''2024-05-01T12:00:01+00:00'',
        PStr ''2024-04-30T00:00:00+00:00'']
   \<and> \<not> non_decreasing
        [PStr ''2024-05-01T12:00:00+00:00'', PStr ''2024-05-01T12:00:01+00:00'',
         PStr ''2024-04-30T00:00:00+00:00'']
   \<and> PStr ''2024-05-01T12:00:00+00:00'' \<noteq> PStr ''2024-05-01T12:00:01+00:00''"
  by (simp add: feed_defs run_defs stale_env_def second_library_record_def backdated_record_def
      non_decreasing_def)

end
